theory Spec2Isabelle
  imports Main "HOL-Library.AList"
begin

section \<open>Data model (the Mongoose schemas of server.js)\<close>

text \<open>
  An ObjectId is modelled as a natural number drawn from a counter of the store, so that
  identifiers are fresh and grow with creation order. Strings are byte lists; the Korean
  literals of the source are given as their UTF-8 bytes. A field that the source sets to
  \<open>null\<close> or may leave \<open>undefined\<close> is an \<open>option\<close>.
  Record fields carry a prefix per schema (\<open>u_\<close> user, \<open>q_\<close> question, \<open>a_\<close> answer,
  \<open>d_\<close> diary, \<open>c_\<close> comment, \<open>l_\<close> like); the field \<open>x_id\<close> is the document's \<open>_id\<close>.
\<close>

type_synonym oid = nat

record user =
  u_id :: oid
  u_username :: string
  u_password :: string
  u_display_name :: "string option"
  u_bio :: "string option"
  u_profile_img :: "string option"
  u_created_at :: string
  u_ip_address :: "string option"

record question =
  q_id :: oid
  q_text :: "string option"
  q_date :: string

record answer =
  a_id :: oid
  a_question_id :: oid
  a_user :: string
  a_content :: string
  a_date :: string

record diary =
  d_id :: oid
  d_user :: string
  d_content :: string
  d_image :: "string option"
  d_date :: string
  d_mood :: string
  d_is_private :: int

record comment =
  c_id :: oid
  c_diary_id :: oid
  c_user :: string
  c_content :: string
  c_date :: string

record like =
  l_id :: oid
  l_diary_id :: oid
  l_user :: string

record store =
  users :: "user list"
  questions :: "question list"
  answers :: "answer list"
  diaries :: "diary list"
  comments :: "comment list"
  likes :: "like list"
  next_id :: oid

text \<open>The objects returned by the two decoration loops: the stored document spread into
  a new object (\<open>...d\<close>, \<open>...c\<close>) and extended with the joined fields.\<close>

record decorated_diary = diary +
  dd_id :: oid
  dd_display_name :: "string option"
  dd_profile_img :: "string option"
  dd_like_count :: nat
  dd_is_liked :: bool

record decorated_comment = comment +
  dc_display_name :: "string option"
  dc_profile_img :: "string option"

section \<open>Utilities\<close>

text \<open>JavaScript truthiness of a value that is a string or \<open>undefined\<close>.\<close>

definition truthy :: "string option \<Rightarrow> bool" where
  "truthy v = (case v of None \<Rightarrow> False | Some s \<Rightarrow> s \<noteq> [])"

text \<open>\<open>s.replace(/-/g, '. ')\<close>\<close>

definition replace_dashes :: "string \<Rightarrow> string" where
  "replace_dashes s = concat (map (\<lambda>c. if c = CHR ''-'' then ''. '' else [c]) s)"

text \<open>\<open>s.replace('T', ' ')\<close>: a string pattern replaces the first occurrence only.\<close>

fun replace_first_T :: "string \<Rightarrow> string" where
  "replace_first_T [] = []"
| "replace_first_T (c # cs) = (if c = CHR ''T'' then CHR '' '' # cs else c # replace_first_T cs)"

text \<open>\<open>getKSTDate(full)\<close>; the argument \<open>now\<close> is \<open>kst.toISOString()\<close>, the clock
  reading shifted by nine hours, which the model takes as an input.\<close>

definition getKSTDate :: "bool \<Rightarrow> string \<Rightarrow> string" where
  "getKSTDate full now =
     (if full then take 19 (replace_first_T now)
      else replace_dashes (takeWhile (\<lambda>c. c \<noteq> CHR ''T'') now))"

text \<open>An uploaded file (multer, memory storage) and \<open>bufferToBase64\<close>. The encoder
  \<open>buffer.toString('base64')\<close> belongs to the runtime and is a parameter.\<close>

record upload =
  mimetype :: string
  buffer :: string

definition bufferToBase64 :: "(string \<Rightarrow> string) \<Rightarrow> upload option \<Rightarrow> string option" where
  "bufferToBase64 enc file =
     (case file of None \<Rightarrow> None
      | Some f \<Rightarrow> Some (''data:'' @ mimetype f @ '';base64,'' @ enc (buffer f)))"

text \<open>The label shown for a missing writer (Korean for "unknown") and the bio given at
  registration (Korean for "nice to meet you!"), as the UTF-8 bytes of the source's literals.\<close>

definition unknown_label :: string where
  "unknown_label = map char_of [236, 149, 140, 32, 236, 136, 152, 32, 236, 151, 134, 236, 157, 140 :: nat]"

definition welcome_bio :: string where
  "welcome_bio = map char_of [235, 176, 152, 234, 176, 128, 236, 155, 140, 236, 154, 148, 33 :: nat]"

section \<open>Collection primitives\<close>

text \<open>A collection is the list of its documents in insertion order. \<open>findOne\<close> is
  \<^const>\<open>find\<close>, \<open>countDocuments\<close> is the length of a \<^const>\<open>filter\<close>, \<open>deleteMany\<close>
  keeps the documents that do not match.\<close>

fun deleteOne :: "('a \<Rightarrow> bool) \<Rightarrow> 'a list \<Rightarrow> 'a list" where
  "deleteOne P [] = []"
| "deleteOne P (x # xs) = (if P x then xs else x # deleteOne P xs)"

fun updateOne :: "('a \<Rightarrow> bool) \<Rightarrow> ('a \<Rightarrow> 'a) \<Rightarrow> 'a list \<Rightarrow> 'a list" where
  "updateOne P f [] = []"
| "updateOne P f (x # xs) = (if P x then f x # xs else x # updateOne P f xs)"

definition deleteMany :: "('a \<Rightarrow> bool) \<Rightarrow> 'a list \<Rightarrow> 'a list" where
  "deleteMany P xs = filter (\<lambda>x. \<not> P x) xs"

definition countDocuments :: "('a \<Rightarrow> bool) \<Rightarrow> 'a list \<Rightarrow> nat" where
  "countDocuments P xs = length (filter P xs)"

text \<open>\<open>.sort({ _id: dir })\<close> with \<open>dir\<close> 1 (ascending) or -1 (descending).\<close>

definition sort_by_id :: "int \<Rightarrow> ('a \<Rightarrow> oid) \<Rightarrow> 'a list \<Rightarrow> 'a list" where
  "sort_by_id dir key xs = sort_key (\<lambda>x. dir * int (key x)) xs"

section \<open>Feed assembler: GET /diaries/:viewer\<close>

text \<open>The query object: the mood condition is added when \<open>mood\<close> is truthy and not
  \<open>'all'\<close>; the \<open>$or\<close> condition is added unless the viewer is \<open>'admin'\<close>.\<close>

definition diary_query :: "string \<Rightarrow> string option \<Rightarrow> diary \<Rightarrow> bool" where
  "diary_query viewer mood d =
     ((if truthy mood \<and> mood \<noteq> Some ''all'' then Some (d_mood d) = mood else True) \<and>
      (if viewer \<noteq> ''admin'' then d_is_private d = 0 \<or> d_user d = viewer else True))"

definition sortOption :: "string option \<Rightarrow> int" where
  "sortOption srt = (if srt = Some ''oldest'' then 1 else - 1)"

definition decorate_diary :: "store \<Rightarrow> string \<Rightarrow> diary \<Rightarrow> decorated_diary" where
  "decorate_diary s viewer d =
     (let writer = find (\<lambda>u. u_username u = d_user d) (users s);
          likeCount = countDocuments (\<lambda>l. l_diary_id l = d_id d) (likes s);
          isLiked = find (\<lambda>l. l_diary_id l = d_id d \<and> l_user l = viewer) (likes s)
      in diary.extend d
           \<lparr>dd_id = d_id d,
            dd_display_name = (case writer of Some w \<Rightarrow> u_display_name w | None \<Rightarrow> Some unknown_label),
            dd_profile_img = (case writer of Some w \<Rightarrow> u_profile_img w | None \<Rightarrow> None),
            dd_like_count = likeCount,
            dd_is_liked = (isLiked \<noteq> None)\<rparr>)"

definition listDiaries :: "store \<Rightarrow> string \<Rightarrow> string option \<Rightarrow> string option \<Rightarrow> decorated_diary list" where
  "listDiaries s viewer srt mood =
     map (decorate_diary s viewer)
       (sort_by_id (sortOption srt) d_id (filter (diary_query viewer mood) (diaries s)))"

section \<open>Replies and errors\<close>

text \<open>What a handler sends back. \<open>Failure e\<close> stands for the error bodies of the
  source, whose messages are Korean text: \<open>DuplicateIdentity\<close> is the body of status 400
  in \<open>/register\<close> (the identifier exists already), \<open>UnknownIdentity\<close> and
  \<open>InvalidCredential\<close> are the two error bodies of \<open>/login\<close> (no such identifier,
  wrong password), \<open>ValidationError\<close> is \<open>{success: false, msg: ...}\<close> of
  \<open>/admin/questions/reserve\<close>. \<open>UnhandledRejection\<close> is an exception that leaves an
  async handler that has no \<open>try\<close>: no response is sent.\<close>

datatype error = DuplicateIdentity | UnknownIdentity | InvalidCredential | ValidationError
  | UnhandledRejection

datatype reply = Success | LoggedIn string | Liked bool | Failure error

text \<open>Why the storage layer rejects a \<open>create\<close>: a \<open>required\<close> path is missing or
  empty, or a unique index already holds the key.\<close>

datatype storage_error = ValidatorError | DuplicateKeyError

section \<open>Engagement service\<close>

text \<open>DELETE /diary/:id\<close>

definition deleteDiary :: "store \<Rightarrow> oid \<Rightarrow> reply \<times> store" where
  "deleteDiary s diary_id =
     (Success,
      s\<lparr>diaries := deleteOne (\<lambda>d. d_id d = diary_id) (diaries s),
        comments := deleteMany (\<lambda>c. c_diary_id c = diary_id) (comments s),
        likes := deleteMany (\<lambda>l. l_diary_id l = diary_id) (likes s)\<rparr>)"

text \<open>\<open>Like.create\<close>, under the unique index on \<open>(diary_id, user)\<close>.\<close>

definition Like_create :: "store \<Rightarrow> oid \<Rightarrow> string \<Rightarrow> storage_error + store" where
  "Like_create s diary_id usr =
     (if find (\<lambda>l. l_diary_id l = diary_id \<and> l_user l = usr) (likes s) \<noteq> None
      then Inl DuplicateKeyError
      else Inr (s\<lparr>likes := likes s @ [\<lparr>l_id = next_id s, l_diary_id = diary_id, l_user = usr\<rparr>],
                  next_id := Suc (next_id s)\<rparr>))"

text \<open>POST /diary/like\<close>

definition toggleLike :: "store \<Rightarrow> oid \<Rightarrow> string \<Rightarrow> reply \<times> store" where
  "toggleLike s diary_id usr =
     (case find (\<lambda>l. l_diary_id l = diary_id \<and> l_user l = usr) (likes s) of
        Some e \<Rightarrow> (Liked False, s\<lparr>likes := deleteOne (\<lambda>l. l_id l = l_id e) (likes s)\<rparr>)
      | None \<Rightarrow>
          (case Like_create s diary_id usr of
             Inr s' \<Rightarrow> (Liked True, s')
           | Inl err \<Rightarrow> (Failure UnhandledRejection, s)))"

text \<open>GET /comments/:diary_id\<close>

definition decorate_comment :: "store \<Rightarrow> comment \<Rightarrow> decorated_comment" where
  "decorate_comment s c =
     (let writer = find (\<lambda>u. u_username u = c_user c) (users s)
      in comment.extend c
           \<lparr>dc_display_name = (case writer of Some w \<Rightarrow> u_display_name w | None \<Rightarrow> Some unknown_label),
            dc_profile_img = (case writer of Some w \<Rightarrow> u_profile_img w | None \<Rightarrow> None)\<rparr>)"

definition listComments :: "store \<Rightarrow> oid \<Rightarrow> decorated_comment list" where
  "listComments s diary_id =
     map (decorate_comment s) (sort_by_id 1 c_id (filter (\<lambda>c. c_diary_id c = diary_id) (comments s)))"

section \<open>Daily question service\<close>

text \<open>POST /answer. \<open>exists.save()\<close> writes the changed paths of the document with
  the \<open>_id\<close> of \<open>exists\<close>.\<close>

definition submitAnswer :: "store \<Rightarrow> oid \<Rightarrow> string \<Rightarrow> string \<Rightarrow> string \<Rightarrow> reply \<times> store" where
  "submitAnswer s question_id usr content now =
     (case find (\<lambda>a. a_question_id a = question_id \<and> a_user a = usr) (answers s) of
        Some e \<Rightarrow>
          (Success,
           s\<lparr>answers := updateOne (\<lambda>a. a_id a = a_id e)
                (\<lambda>a. a\<lparr>a_content := content, a_date := getKSTDate False now\<rparr>) (answers s)\<rparr>)
      | None \<Rightarrow>
          (Success,
           s\<lparr>answers := answers s @
                [\<lparr>a_id = next_id s, a_question_id = question_id, a_user = usr,
                  a_content = content, a_date = getKSTDate False now\<rparr>],
             next_id := Suc (next_id s)\<rparr>))"

text \<open>A run of serialized calls for one (question, user) pair; each call brings its
  content and its clock reading.\<close>

fun submitAnswers :: "store \<Rightarrow> oid \<Rightarrow> string \<Rightarrow> (string \<times> string) list \<Rightarrow> store" where
  "submitAnswers s question_id usr [] = s"
| "submitAnswers s question_id usr ((content, now) # calls) =
     submitAnswers (snd (submitAnswer s question_id usr content now)) question_id usr calls"

section \<open>Identity service\<close>

text \<open>\<open>User.create\<close>: \<open>username\<close> and \<open>password\<close> are \<open>required\<close> (a missing or
  empty string fails the validator), \<open>username\<close> is \<open>unique\<close>.\<close>

definition User_create ::
  "store \<Rightarrow> string option \<Rightarrow> string option \<Rightarrow> string option \<Rightarrow> string option \<Rightarrow> string option
     \<Rightarrow> string \<Rightarrow> string option \<Rightarrow> storage_error + store" where
  "User_create s username password display_name bio profile_img created_at ip_address =
     (case (username, password) of
        (Some u, Some p) \<Rightarrow>
          if u = [] \<or> p = [] then Inl ValidatorError
          else if find (\<lambda>x. u_username x = u) (users s) \<noteq> None then Inl DuplicateKeyError
          else Inr (s\<lparr>users := users s @
                       [\<lparr>u_id = next_id s, u_username = u, u_password = p,
                         u_display_name = display_name, u_bio = bio, u_profile_img = profile_img,
                         u_created_at = created_at, u_ip_address = ip_address\<rparr>],
                     next_id := Suc (next_id s)\<rparr>)
      | _ \<Rightarrow> Inl ValidatorError)"

text \<open>The address of the caller: the \<open>x-forwarded-for\<close> header or else the socket's
  address, cut at the first comma.\<close>

definition client_ip :: "string option \<Rightarrow> string option \<Rightarrow> string option" where
  "client_ip forwarded remote =
     (let ip = (if truthy forwarded then forwarded else remote)
      in case ip of
           Some a \<Rightarrow> if a \<noteq> [] \<and> CHR '','' \<in> set a then Some (takeWhile (\<lambda>c. c \<noteq> CHR '','') a) else ip
         | None \<Rightarrow> ip)"

text \<open>POST /register of server.js: the credential is stored as given. Whatever
  \<open>User.create\<close> throws is caught and answered with the one error body.\<close>

definition register ::
  "store \<Rightarrow> string option \<Rightarrow> string option \<Rightarrow> string option \<Rightarrow> string option \<Rightarrow> string
     \<Rightarrow> reply \<times> store" where
  "register s username password forwarded remote now =
     (case User_create s username password username (Some welcome_bio) None
             (getKSTDate True now) (client_ip forwarded remote) of
        Inr s' \<Rightarrow> (Success, s')
      | Inl err \<Rightarrow> (Failure DuplicateIdentity, s))"

text \<open>POST /login of server.js: \<open>req.body.password !== user.password\<close>.\<close>

definition login :: "store \<Rightarrow> string option \<Rightarrow> string option \<Rightarrow> reply" where
  "login s username password =
     (case find (\<lambda>u. Some (u_username u) = username) (users s) of
        None \<Rightarrow> Failure UnknownIdentity
      | Some usr \<Rightarrow>
          if password \<noteq> Some (u_password usr) then Failure InvalidCredential
          else LoggedIn (u_username usr))"

text \<open>The same two handlers in src/unnamed/part_000, which hashes the credential. The
  library calls \<open>bcrypt.hash(password, 10)\<close> and \<open>bcrypt.compare\<close> are parameters; both
  reject a missing argument. In \<open>/register\<close> the rejection is inside the \<open>try\<close>;
  \<open>/login\<close> has no \<open>try\<close>.\<close>

definition register_part000 ::
  "(string \<Rightarrow> string) \<Rightarrow> store \<Rightarrow> string option \<Rightarrow> string option \<Rightarrow> string option \<Rightarrow> string option
     \<Rightarrow> string \<Rightarrow> reply \<times> store" where
  "register_part000 bcrypt_hash s username password forwarded remote now =
     (case password of
        None \<Rightarrow> (Failure DuplicateIdentity, s)
      | Some p \<Rightarrow>
          (case User_create s username (Some (bcrypt_hash p)) username (Some welcome_bio) None
                  (getKSTDate True now) (client_ip forwarded remote) of
             Inr s' \<Rightarrow> (Success, s')
           | Inl err \<Rightarrow> (Failure DuplicateIdentity, s)))"

definition login_part000 ::
  "(string \<Rightarrow> string \<Rightarrow> bool) \<Rightarrow> store \<Rightarrow> string option \<Rightarrow> string option \<Rightarrow> reply" where
  "login_part000 bcrypt_compare s username password =
     (case find (\<lambda>u. Some (u_username u) = username) (users s) of
        None \<Rightarrow> Failure UnknownIdentity
      | Some usr \<Rightarrow>
          (case password of
             None \<Rightarrow> Failure UnhandledRejection
           | Some p \<Rightarrow>
               if \<not> bcrypt_compare p (u_password usr) then Failure InvalidCredential
               else LoggedIn (u_username usr)))"

text \<open>POST /profile/update. The form fields \<open>display_name\<close> and \<open>bio\<close> are taken as
  sent; the file is optional.\<close>

definition updateProfile ::
  "(string \<Rightarrow> string) \<Rightarrow> store \<Rightarrow> string \<Rightarrow> string \<Rightarrow> string \<Rightarrow> upload option \<Rightarrow> reply \<times> store" where
  "updateProfile enc s username display_name bio file =
     (let updateData = (\<lambda>u. u\<lparr>u_display_name := Some display_name, u_bio := Some bio\<rparr>);
          updateData' = (case file of
                           Some f \<Rightarrow> (\<lambda>u. (updateData u)\<lparr>u_profile_img := bufferToBase64 enc (Some f)\<rparr>)
                         | None \<Rightarrow> updateData)
      in (Success, s\<lparr>users := updateOne (\<lambda>u. u_username u = username) updateData' (users s)\<rparr>))"

section \<open>Admin service\<close>

text \<open>A JSON object is the list of its keys with their values; \<open>res.json\<close> leaves out
  a key whose value is \<open>undefined\<close>.\<close>

datatype jval = JNull | JStr string | JNum nat | JOid oid

type_synonym jobject = "(string \<times> jval) list"

definition json_object :: "(string \<times> jval option) list \<Rightarrow> jobject" where
  "json_object kvs = List.map_filter (\<lambda>(k, v). map_option (\<lambda>x. (k, x)) v) kvs"

definition nullable :: "string option \<Rightarrow> jval" where
  "nullable v = (case v of None \<Rightarrow> JNull | Some x \<Rightarrow> JStr x)"

text \<open>GET /admin/user/:username of server.js. The handler does not read the
  \<open>viewer\<close> query parameter.\<close>

definition userDetail :: "store \<Rightarrow> string \<Rightarrow> string option \<Rightarrow> jobject" where
  "userDetail s username viewer =
     (case find (\<lambda>u. u_username u = username) (users s) of
        None \<Rightarrow> []
      | Some targetUser \<Rightarrow>
          (let dCount = countDocuments (\<lambda>d. d_user d = u_username targetUser) (diaries s);
               aCount = countDocuments (\<lambda>a. a_user a = u_username targetUser) (answers s)
           in json_object
                [(''id'', Some (JOid (u_id targetUser))),
                 (''username'', Some (JStr (u_username targetUser))),
                 (''display_name'', map_option JStr (u_display_name targetUser)),
                 (''bio'', map_option JStr (u_bio targetUser)),
                 (''profile_img'', Some (nullable (u_profile_img targetUser))),
                 (''created_at'', Some (JStr (u_created_at targetUser))),
                 (''ip_address'', map_option JStr (u_ip_address targetUser)),
                 (''password'', Some (JStr (u_password targetUser))),
                 (''diary_count'', Some (JNum dCount)),
                 (''answer_count'', Some (JNum aCount))]))"

text \<open>The same handler in src/unnamed/part_000: the full record, with the credential
  replaced by the placeholder, only for the viewer \<open>'admin'\<close>.\<close>

definition toObject :: "user \<Rightarrow> jobject" where
  "toObject u =
     json_object
       [(''_id'', Some (JOid (u_id u))),
        (''username'', Some (JStr (u_username u))),
        (''password'', Some (JStr (u_password u))),
        (''display_name'', map_option JStr (u_display_name u)),
        (''bio'', map_option JStr (u_bio u)),
        (''profile_img'', Some (nullable (u_profile_img u))),
        (''created_at'', Some (JStr (u_created_at u))),
        (''ip_address'', map_option JStr (u_ip_address u)),
        (''__v'', Some (JNum 0))]"

definition userDetail_part000 :: "store \<Rightarrow> string \<Rightarrow> string option \<Rightarrow> jobject" where
  "userDetail_part000 s username viewer =
     (case find (\<lambda>u. u_username u = username) (users s) of
        None \<Rightarrow> []
      | Some targetUser \<Rightarrow>
          if viewer = Some ''admin'' then
            (let dCount = countDocuments (\<lambda>d. d_user d = u_username targetUser) (diaries s);
                 aCount = countDocuments (\<lambda>a. a_user a = u_username targetUser) (answers s)
             in AList.update ''answer_count'' (JNum aCount)
                  (AList.update ''diary_count'' (JNum dCount)
                    (AList.update ''password'' (JStr ''Encrypted'')
                      (AList.update ''id'' (JOid (u_id targetUser)) (toObject targetUser)))))
          else
            json_object
              [(''display_name'', map_option JStr (u_display_name targetUser)),
               (''bio'', map_option JStr (u_bio targetUser)),
               (''profile_img'', Some (nullable (u_profile_img targetUser)))])"

text \<open>\<open>Question.create\<close>: no validator, no unique index.\<close>

definition Question_create :: "store \<Rightarrow> string option \<Rightarrow> string \<Rightarrow> store" where
  "Question_create s text date =
     s\<lparr>questions := questions s @ [\<lparr>q_id = next_id s, q_text = text, q_date = date\<rparr>],
       next_id := Suc (next_id s)\<rparr>"

text \<open>POST /admin/questions/reserve of server.js. The \<open>catch\<close> branch (status 500)
  answers a failure of the storage layer, which the model does not have.\<close>

definition reserveQuestion :: "store \<Rightarrow> string option \<Rightarrow> string option \<Rightarrow> reply \<times> store" where
  "reserveQuestion s text date =
     (case date of
        None \<Rightarrow> (Failure ValidationError, s)
      | Some d \<Rightarrow>
          if \<not> truthy text \<or> \<not> truthy date then (Failure ValidationError, s)
          else (Success, Question_create s text (replace_dashes d)))"

text \<open>The same handler in src/unnamed/part_000: no check and no \<open>try\<close>;
  \<open>req.body.date.replace\<close> throws a TypeError when \<open>date\<close> is missing.\<close>

definition reserveQuestion_part000 :: "store \<Rightarrow> string option \<Rightarrow> string option \<Rightarrow> reply \<times> store" where
  "reserveQuestion_part000 s text date =
     (case date of
        None \<Rightarrow> (Failure UnhandledRejection, s)
      | Some d \<Rightarrow> (Success, Question_create s text (replace_dashes d)))"

section \<open>Store invariants and observations\<close>

text \<open>What the storage layer guarantees of a store: an \<open>_id\<close> is unique in its
  collection and was drawn from the counter, a username is unique (the \<open>unique\<close> path
  of the user schema), a (diary, user) pair has at most one like (the compound unique
  index of the like schema).\<close>

definition wf_store :: "store \<Rightarrow> bool" where
  "wf_store s \<longleftrightarrow>
     distinct (map u_id (users s)) \<and> distinct (map q_id (questions s)) \<and>
     distinct (map a_id (answers s)) \<and> distinct (map d_id (diaries s)) \<and>
     distinct (map c_id (comments s)) \<and> distinct (map l_id (likes s)) \<and>
     (\<forall>u \<in> set (users s). u_id u < next_id s) \<and> (\<forall>q \<in> set (questions s). q_id q < next_id s) \<and>
     (\<forall>a \<in> set (answers s). a_id a < next_id s) \<and> (\<forall>d \<in> set (diaries s). d_id d < next_id s) \<and>
     (\<forall>c \<in> set (comments s). c_id c < next_id s) \<and> (\<forall>l \<in> set (likes s). l_id l < next_id s) \<and>
     distinct (map u_username (users s)) \<and>
     distinct (map (\<lambda>l. (l_diary_id l, l_user l)) (likes s))"

text \<open>No index guards the (question, user) pair of an answer; the property below is
  kept by serialized calls of \<open>/answer\<close>.\<close>

definition one_answer_per_pair :: "store \<Rightarrow> bool" where
  "one_answer_per_pair s \<longleftrightarrow> distinct (map (\<lambda>a. (a_question_id a, a_user a)) (answers s))"

text \<open>The like state of a (diary, user) pair, the like count of a diary, and the
  answers stored for a (question, user) pair.\<close>

definition is_liked :: "store \<Rightarrow> oid \<Rightarrow> string \<Rightarrow> bool" where
  "is_liked s diary_id usr = (\<exists>l \<in> set (likes s). l_diary_id l = diary_id \<and> l_user l = usr)"

definition like_count :: "store \<Rightarrow> oid \<Rightarrow> nat" where
  "like_count s diary_id = countDocuments (\<lambda>l. l_diary_id l = diary_id) (likes s)"

definition answers_for :: "store \<Rightarrow> oid \<Rightarrow> string \<Rightarrow> answer list" where
  "answers_for s question_id usr =
     filter (\<lambda>a. a_question_id a = question_id \<and> a_user a = usr) (answers s)"

text \<open>The store before any request.\<close>

definition empty_store :: store where
  "empty_store = \<lparr>users = [], questions = [], answers = [], diaries = [], comments = [],
                   likes = [], next_id = 0\<rparr>"

text \<open>A small store used to run the model: two users, three diaries (one private, one
  whose writer has no user record), comments, likes, one question and one answer.\<close>

definition example_store :: store where
  "example_store =
     \<lparr>users =
        [\<lparr>u_id = 0, u_username = ''alice'', u_password = ''pw1'', u_display_name = Some ''Alice'',
          u_bio = Some ''hello'', u_profile_img = None, u_created_at = ''2024-01-02 03:04:05'',
          u_ip_address = Some ''10.0.0.1''\<rparr>,
         \<lparr>u_id = 1, u_username = ''bob'', u_password = ''pw2'', u_display_name = Some ''Bob'',
          u_bio = Some ''hi'', u_profile_img = Some ''data:image/png;base64,AAAA'',
          u_created_at = ''2024-01-03 03:04:05'', u_ip_address = Some ''10.0.0.2''\<rparr>],
      questions = [\<lparr>q_id = 9, q_text = Some ''How was your day?'', q_date = ''2024. 01. 05''\<rparr>],
      answers =
        [\<lparr>a_id = 10, a_question_id = 9, a_user = ''alice'', a_content = ''fine'',
          a_date = ''2024. 01. 05''\<rparr>],
      diaries =
        [\<lparr>d_id = 2, d_user = ''alice'', d_content = ''secret'', d_image = None,
          d_date = ''2024. 01. 09'', d_mood = ''sad'', d_is_private = 1\<rparr>,
         \<lparr>d_id = 3, d_user = ''bob'', d_content = ''sunny'', d_image = None,
          d_date = ''2024. 01. 04'', d_mood = ''happy'', d_is_private = 0\<rparr>,
         \<lparr>d_id = 4, d_user = ''carol'', d_content = ''old entry'', d_image = None,
          d_date = ''2024. 01. 01'', d_mood = ''happy'', d_is_private = 0\<rparr>],
      comments =
        [\<lparr>c_id = 5, c_diary_id = 3, c_user = ''alice'', c_content = ''nice'', c_date = ''2024. 01. 04''\<rparr>,
         \<lparr>c_id = 6, c_diary_id = 3, c_user = ''carol'', c_content = ''great'', c_date = ''2024. 01. 04''\<rparr>,
         \<lparr>c_id = 11, c_diary_id = 2, c_user = ''alice'', c_content = ''note'', c_date = ''2024. 01. 09''\<rparr>],
      likes =
        [\<lparr>l_id = 7, l_diary_id = 3, l_user = ''alice''\<rparr>,
         \<lparr>l_id = 8, l_diary_id = 3, l_user = ''bob''\<rparr>,
         \<lparr>l_id = 12, l_diary_id = 2, l_user = ''alice''\<rparr>],
      next_id = 13\<rparr>"

text \<open>The private diary of alice in the example store.\<close>

definition alice_private_diary :: diary where
  "alice_private_diary =
     \<lparr>d_id = 2, d_user = ''alice'', d_content = ''secret'', d_image = None,
      d_date = ''2024. 01. 09'', d_mood = ''sad'', d_is_private = 1\<rparr>"

section \<open>Properties\<close>

subsection \<open>Lists as collections\<close>

lemma find_SomeD: "find P xs = Some x \<Longrightarrow> x \<in> set xs \<and> P x"
  by (induction xs) (auto split: if_splits)

lemma find_None_iff': "find P xs = None \<longleftrightarrow> (\<forall>x \<in> set xs. \<not> P x)"
  by (induction xs) auto

lemma find_filter: "find P xs = (case filter P xs of [] \<Rightarrow> None | x # _ \<Rightarrow> Some x)"
  by (induction xs) auto

lemma find_exists: "(find P xs \<noteq> None) \<longleftrightarrow> (\<exists>x \<in> set xs. P x)"
  by (simp add: find_None_iff')

lemma filter_key_single:
  "distinct (map key xs) \<Longrightarrow> e \<in> set xs \<Longrightarrow> filter (\<lambda>x. key x = key e) xs = [e]"
proof (induction xs)
  case Nil
  then show ?case by simp
next
  case (Cons x xs)
  show ?case
  proof (cases "x = e")
    case True
    with Cons.prems have "\<forall>y \<in> set xs. key y \<noteq> key e" by (auto simp: image_iff)
    then have "filter (\<lambda>x. key x = key e) xs = []" by (simp add: filter_empty_conv)
    with True show ?thesis by simp
  next
    case False
    with Cons.prems have "key x \<noteq> key e" "e \<in> set xs" by (auto simp: image_iff)
    with Cons show ?thesis by simp
  qed
qed

lemma find_unique:
  "distinct (map key xs) \<Longrightarrow> e \<in> set xs \<Longrightarrow> find (\<lambda>x. key x = key e) xs = Some e"
  by (simp add: find_filter filter_key_single)

lemma filter_map_pres: "(\<And>x. P (g x) = P x) \<Longrightarrow> filter P (map g xs) = map g (filter P xs)"
  by (induction xs) auto

lemma unique_pair_filter:
  "distinct (map f xs) \<Longrightarrow> e \<in> set xs \<Longrightarrow> filter (\<lambda>x. x \<noteq> e) xs = filter (\<lambda>x. f x \<noteq> f e) xs"
  by (rule filter_cong) (auto simp: distinct_map inj_on_def)

lemma count_remove:
  "distinct (map f xs) \<Longrightarrow> e \<in> set xs \<Longrightarrow>
   length (filter P (filter (\<lambda>x. f x \<noteq> f e) xs)) + (if P e then 1 else 0) = length (filter P xs)"
proof (induction xs)
  case Nil
  then show ?case by simp
next
  case (Cons x xs)
  show ?case
  proof (cases "x = e")
    case True
    with Cons.prems have "\<forall>y \<in> set xs. f y \<noteq> f e" by (auto simp: image_iff)
    then have "filter (\<lambda>x. f x \<noteq> f e) xs = xs" by (simp add: filter_id_conv)
    with True show ?thesis by simp
  next
    case False
    with Cons.prems have "f x \<noteq> f e" "e \<in> set xs" by force+
    with Cons show ?thesis by simp
  qed
qed

lemma deleteOne_filter:
  "distinct (map key xs) \<Longrightarrow> deleteOne (\<lambda>x. key x = k) xs = filter (\<lambda>x. key x \<noteq> k) xs"
proof (induction xs)
  case Nil
  then show ?case by simp
next
  case (Cons x xs)
  show ?case
  proof (cases "key x = k")
    case True
    with Cons.prems have "\<forall>y \<in> set xs. key y \<noteq> k" by (auto simp: image_iff)
    then have "filter (\<lambda>x. key x \<noteq> k) xs = xs" by (simp add: filter_id_conv)
    with True show ?thesis by simp
  next
    case False
    with Cons show ?thesis by simp
  qed
qed

lemma deleteOne_key:
  "distinct (map key xs) \<Longrightarrow> e \<in> set xs \<Longrightarrow>
   deleteOne (\<lambda>x. key x = key e) xs = filter (\<lambda>x. x \<noteq> e) xs"
  by (simp add: deleteOne_filter unique_pair_filter)

lemma updateOne_map:
  "distinct (map key xs) \<Longrightarrow>
   updateOne (\<lambda>x. key x = k) f xs = map (\<lambda>x. if key x = k then f x else x) xs"
proof (induction xs)
  case Nil
  then show ?case by simp
next
  case (Cons x xs)
  show ?case
  proof (cases "key x = k")
    case True
    with Cons.prems have "\<forall>y \<in> set xs. key y \<noteq> k" by (auto simp: image_iff)
    then have "map (\<lambda>x. if key x = k then f x else x) xs = xs" by (simp add: map_idI)
    with True show ?thesis by simp
  next
    case False
    with Cons show ?thesis by simp
  qed
qed

subsection \<open>The example store\<close>

lemma wf_example: "wf_store example_store"
  by (simp add: wf_store_def example_store_def)

lemma one_example: "one_answer_per_pair example_store"
  by (simp add: one_answer_per_pair_def example_store_def)

subsection \<open>The diary feed\<close>

lemma truncate_extend: "diary.truncate (diary.extend d e) = d"
  by (cases d) (simp add: diary.truncate_def diary.extend_def)

lemma set_sort_by_id: "set (sort_by_id dir key xs) = set xs"
  by (simp add: sort_by_id_def)

lemma decorate_diary_eq:
  "decorate_diary s viewer d =
     \<lparr>d_id = d_id d, d_user = d_user d, d_content = d_content d, d_image = d_image d,
      d_date = d_date d, d_mood = d_mood d, d_is_private = d_is_private d,
      dd_id = d_id d,
      dd_display_name = (case find (\<lambda>u. u_username u = d_user d) (users s) of
                           Some w \<Rightarrow> u_display_name w | None \<Rightarrow> Some unknown_label),
      dd_profile_img = (case find (\<lambda>u. u_username u = d_user d) (users s) of
                          Some w \<Rightarrow> u_profile_img w | None \<Rightarrow> None),
      dd_like_count = like_count s (d_id d),
      dd_is_liked = is_liked s (d_id d) viewer\<rparr>"
  by (cases d)
     (simp add: decorate_diary_def Let_def diary.extend_def like_count_def is_liked_def find_exists
        del: not_None_eq)

lemma decorate_comment_eq:
  "decorate_comment s c =
     \<lparr>c_id = c_id c, c_diary_id = c_diary_id c, c_user = c_user c, c_content = c_content c,
      c_date = c_date c,
      dc_display_name = (case find (\<lambda>u. u_username u = c_user c) (users s) of
                           Some w \<Rightarrow> u_display_name w | None \<Rightarrow> Some unknown_label),
      dc_profile_img = (case find (\<lambda>u. u_username u = c_user c) (users s) of
                          Some w \<Rightarrow> u_profile_img w | None \<Rightarrow> None)\<rparr>"
  by (cases c) (simp add: decorate_comment_def Let_def comment.extend_def)

lemma truncate_decorate: "diary.truncate (decorate_diary s viewer d) = d"
  by (simp add: decorate_diary_def Let_def truncate_extend)

lemma undecorate_listDiaries:
  "map diary.truncate (listDiaries s viewer srt mood) =
   sort_by_id (sortOption srt) d_id (filter (diary_query viewer mood) (diaries s))"
  by (simp add: listDiaries_def o_def truncate_decorate)

lemma ids_listDiaries:
  "map d_id (listDiaries s viewer srt mood) =
   map d_id (sort_by_id (sortOption srt) d_id (filter (diary_query viewer mood) (diaries s)))"
  by (simp add: listDiaries_def o_def decorate_diary_eq)

text \<open>Claim C1. With no mood filter (the query parameter absent, empty or \<open>'all'\<close>), a
  diary is among the diaries returned to a viewer if and only if it is stored and it is
  public (\<open>is_private = 0\<close>), or its author is the viewer, or the viewer is the literal
  \<open>'admin'\<close>. The returned objects are compared by their stored fields.\<close>

theorem listDiaries_visibility:
  assumes "\<not> truthy mood \<or> mood = Some ''all''"
  shows "d \<in> set (map diary.truncate (listDiaries s viewer srt mood)) \<longleftrightarrow>
         d \<in> set (diaries s) \<and> (d_is_private d = 0 \<or> d_user d = viewer \<or> viewer = ''admin'')"
  unfolding undecorate_listDiaries using assms
  by (auto simp: set_sort_by_id diary_query_def)

text \<open>At the example store: the private diary of alice is hidden from bob and shown to alice
  and to admin.\<close>

theorem listDiaries_visibility_witness:
  "\<not> truthy None \<and>
   alice_private_diary \<in> set (diaries example_store) \<and>
   alice_private_diary \<notin> set (map diary.truncate (listDiaries example_store ''bob'' None None)) \<and>
   alice_private_diary \<in> set (map diary.truncate (listDiaries example_store ''alice'' None None)) \<and>
   alice_private_diary \<in> set (map diary.truncate (listDiaries example_store ''admin'' None None))"
proof -
  have h: "\<not> truthy None \<or> None = Some ''all''" by (simp add: truthy_def)
  have m: "alice_private_diary \<in> set (diaries example_store)"
    by (simp add: alice_private_diary_def example_store_def)
  show ?thesis
    using listDiaries_visibility[OF h, of alice_private_diary example_store "''bob''" None]
      listDiaries_visibility[OF h, of alice_private_diary example_store "''alice''" None]
      listDiaries_visibility[OF h, of alice_private_diary example_store "''admin''" None] m
    by (simp add: truthy_def alice_private_diary_def)
qed

subsection \<open>Order of the feed\<close>

lemma sorted_neg_rev: "sorted (map (\<lambda>x. - (f x :: int)) (rev ys)) = sorted (map f ys)"
  by (induction ys) (auto simp: sorted_append)

lemma sorted_map_int: "sorted (map (\<lambda>x. int (key x)) zs) = sorted (map key zs)"
  by (induction zs) auto

lemma sort_desc_rev_asc:
  assumes "distinct (map key xs)"
  shows "sort_by_id (- 1) key xs = rev (sort_by_id 1 key xs)"
proof -
  let ?f = "\<lambda>x. - int (key x)"
  let ?A = "sort_key ?f xs" and ?B = "rev (sort_key (\<lambda>x. int (key x)) xs)"
  have inj: "inj_on ?f (set xs)" using assms by (auto simp: distinct_map inj_on_def)
  have dA: "distinct (map ?f ?A)" and dB: "distinct (map ?f ?B)"
    using assms inj by (auto simp: distinct_map)
  have sA: "sorted (map ?f ?A)" by simp
  have sB: "sorted (map ?f ?B)" by (simp only: sorted_neg_rev sorted_sort_key)
  have "set (map ?f ?A) = set (map ?f ?B)" by simp
  then have "map ?f ?A = map ?f ?B" using sA sB dA dB by (intro sorted_distinct_set_unique)
  moreover have "inj_on ?f (set ?A \<union> set ?B)" using inj by simp
  ultimately have "?A = ?B" by (simp only: inj_on_map_eq_map)
  then show ?thesis by (simp add: sort_by_id_def)
qed

lemma sorted_sort_by_id_asc: "sorted (map key (sort_by_id 1 key xs))"
proof -
  have "sorted (map (\<lambda>x. int (key x)) (sort_key (\<lambda>x. int (key x)) xs))" by (rule sorted_sort_key)
  then show ?thesis by (simp add: sort_by_id_def sorted_map_int)
qed

lemma sorted_sort_by_id_desc: "sorted (rev (map key (sort_by_id (- 1) key xs)))"
proof -
  let ?A = "sort_key (\<lambda>x. - int (key x)) xs"
  have "sorted (map (\<lambda>x. - int (key x)) (rev (rev ?A)))" by (simp only: rev_rev_ident sorted_sort_key)
  then have "sorted (map (\<lambda>x. int (key x)) (rev ?A))" by (simp only: sorted_neg_rev)
  then have "sorted (map key (rev ?A))" by (simp only: sorted_map_int)
  then show ?thesis by (simp add: sort_by_id_def rev_map)
qed

lemma insort_key_map:
  "insort_key k (h x) (map h ys) = map h (insort_key (\<lambda>y. k (h y)) x ys)"
  by (induction ys) auto

lemma sort_key_map: "sort_key k (map h xs) = map h (sort_key (\<lambda>y. k (h y)) xs)"
  by (induction xs) (auto simp: insort_key_map)

lemma listDiaries_ignores_dates:
  "map d_id (listDiaries (s\<lparr>diaries := map (\<lambda>d. d\<lparr>d_date := g d\<rparr>) (diaries s)\<rparr>) viewer srt mood) =
   map d_id (listDiaries s viewer srt mood)"
proof -
  let ?h = "\<lambda>d. d\<lparr>d_date := g d\<rparr>"
  have "filter (diary_query viewer mood) (map ?h (diaries s)) =
        map ?h (filter (diary_query viewer mood) (diaries s))"
    by (rule filter_map_pres) (simp add: diary_query_def)
  then show ?thesis
    by (simp add: ids_listDiaries sort_by_id_def sort_key_map o_def)
qed

lemma strict_desc:
  "sorted_wrt (\<lambda>x y. y \<le> x) xs \<Longrightarrow> distinct xs \<Longrightarrow> sorted_wrt (\<lambda>a b. b < a) (xs :: nat list)"
  by (induction xs) (auto simp: order.strict_iff_order)

text \<open>Claim C8. In a well-formed store, for every viewer and mood filter: without the sort
  option \<open>'oldest'\<close> the returned diaries have strictly decreasing \<open>_id\<close> (newest
  first); with it they have strictly increasing \<open>_id\<close>, and that list is exactly the
  reverse of the default one. The order of the identifiers does not depend on the date
  strings: rewriting every date leaves it unchanged.\<close>

theorem listDiaries_order:
  assumes "wf_store s"
  shows "(srt \<noteq> Some ''oldest'' \<longrightarrow>
            sorted_wrt (\<lambda>a b. a > b) (map d_id (listDiaries s viewer srt mood))) \<and>
         sorted_wrt (\<lambda>a b. a < b) (map d_id (listDiaries s viewer (Some ''oldest'') mood)) \<and>
         (srt \<noteq> Some ''oldest'' \<longrightarrow>
            listDiaries s viewer (Some ''oldest'') mood = rev (listDiaries s viewer srt mood)) \<and>
         map d_id (listDiaries (s\<lparr>diaries := map (\<lambda>d. d\<lparr>d_date := g d\<rparr>) (diaries s)\<rparr>) viewer srt mood) =
           map d_id (listDiaries s viewer srt mood)"
proof -
  let ?xs = "filter (diary_query viewer mood) (diaries s)"
  have d: "distinct (map d_id ?xs)"
    using assms by (simp add: wf_store_def distinct_map_filter)
  have dist: "distinct (map d_id (sort_by_id dir d_id ?xs))" for dir
    using d by (simp add: sort_by_id_def distinct_map)
  have "sorted_wrt (\<lambda>x y. y \<le> x) (map d_id (sort_by_id (- 1) d_id ?xs))"
    using sorted_sort_by_id_desc[of d_id ?xs] by (simp only: sorted_wrt_rev)
  then have desc: "sorted_wrt (\<lambda>a b. a > b) (map d_id (sort_by_id (- 1) d_id ?xs))"
    using dist[of "- 1"] by (rule strict_desc)
  have asc: "sorted_wrt (\<lambda>a b. a < b) (map d_id (sort_by_id 1 d_id ?xs))"
    using sorted_sort_by_id_asc[of d_id ?xs] dist[of 1] by (simp only: strict_sorted_iff)
  have r: "sort_by_id 1 d_id ?xs = rev (sort_by_id (- 1) d_id ?xs)"
    by (simp only: sort_desc_rev_asc[OF d] rev_rev_ident)
  have c1: "srt \<noteq> Some ''oldest'' \<longrightarrow>
            sorted_wrt (\<lambda>a b. a > b) (map d_id (listDiaries s viewer srt mood))"
    using desc by (simp add: ids_listDiaries sortOption_def)
  have c2: "sorted_wrt (\<lambda>a b. a < b) (map d_id (listDiaries s viewer (Some ''oldest'') mood))"
    using asc by (simp add: ids_listDiaries sortOption_def)
  have c3: "srt \<noteq> Some ''oldest'' \<longrightarrow>
            listDiaries s viewer (Some ''oldest'') mood = rev (listDiaries s viewer srt mood)"
    by (simp add: listDiaries_def sortOption_def r rev_map)
  from c1 c2 c3 listDiaries_ignores_dates show ?thesis by blast
qed

text \<open>At the example store: bob sees diary 4 before diary 3, although diary 4 carries the
  earlier date string.\<close>

theorem listDiaries_order_witness:
  "wf_store example_store \<and>
   map d_id (listDiaries example_store ''bob'' None None) = [4, 3] \<and>
   map d_date (listDiaries example_store ''bob'' None None) = [''2024. 01. 01'', ''2024. 01. 04''] \<and>
   sorted_wrt (\<lambda>a b. a > b) (map d_id (listDiaries example_store ''bob'' None None)) \<and>
   listDiaries example_store ''bob'' (Some ''oldest'') None =
     rev (listDiaries example_store ''bob'' None None)"
proof -
  have ids: "map d_id (listDiaries example_store ''bob'' None None) = [4, 3]"
    by (simp add: ids_listDiaries sortOption_def sort_by_id_def diary_query_def truthy_def
          example_store_def)
  have dates: "map d_date (listDiaries example_store ''bob'' None None) =
               [''2024. 01. 01'', ''2024. 01. 04'']"
    by (simp add: listDiaries_def decorate_diary_eq sortOption_def sort_by_id_def diary_query_def
          truthy_def example_store_def)
  show ?thesis
    using listDiaries_order[OF wf_example, of None "''bob''" None] wf_example ids dates by simp
qed

subsection \<open>Decoration\<close>

lemma writer_lookup:
  assumes "distinct (map u_username us)"
  shows "w \<in> set us \<Longrightarrow> u_username w = n \<Longrightarrow> find (\<lambda>u. u_username u = n) us = Some w"
    and "\<forall>w \<in> set us. u_username w \<noteq> n \<Longrightarrow> find (\<lambda>u. u_username u = n) us = None"
  using find_unique[OF assms, of w] by (auto simp: find_None_iff')

text \<open>Claim C9. In a well-formed store, every returned diary and every returned comment
  carries the display name and avatar stored for its writer when a user record with that
  username exists, and the fixed label for "unknown" with a null avatar when none exists;
  every returned diary also carries the number of likes of the diary and whether the
  viewer has liked it.\<close>

theorem decoration_fields:
  assumes "wf_store s"
  shows "(\<forall>r \<in> set (listDiaries s viewer srt mood).
            (\<forall>w \<in> set (users s). u_username w = d_user r \<longrightarrow>
               dd_display_name r = u_display_name w \<and> dd_profile_img r = u_profile_img w) \<and>
            ((\<forall>w \<in> set (users s). u_username w \<noteq> d_user r) \<longrightarrow>
               dd_display_name r = Some unknown_label \<and> dd_profile_img r = None) \<and>
            dd_like_count r = like_count s (d_id r) \<and>
            dd_is_liked r = is_liked s (d_id r) viewer) \<and>
         (\<forall>r \<in> set (listComments s diary_id).
            (\<forall>w \<in> set (users s). u_username w = c_user r \<longrightarrow>
               dc_display_name r = u_display_name w \<and> dc_profile_img r = u_profile_img w) \<and>
            ((\<forall>w \<in> set (users s). u_username w \<noteq> c_user r) \<longrightarrow>
               dc_display_name r = Some unknown_label \<and> dc_profile_img r = None))"
proof -
  have du: "distinct (map u_username (users s))" using assms by (simp add: wf_store_def)
  note look = writer_lookup[OF du]
  have diary: "\<forall>r \<in> set (listDiaries s viewer srt mood).
            (\<forall>w \<in> set (users s). u_username w = d_user r \<longrightarrow>
               dd_display_name r = u_display_name w \<and> dd_profile_img r = u_profile_img w) \<and>
            ((\<forall>w \<in> set (users s). u_username w \<noteq> d_user r) \<longrightarrow>
               dd_display_name r = Some unknown_label \<and> dd_profile_img r = None) \<and>
            dd_like_count r = like_count s (d_id r) \<and>
            dd_is_liked r = is_liked s (d_id r) viewer"
  proof
    fix r assume "r \<in> set (listDiaries s viewer srt mood)"
    then obtain d where r: "r = decorate_diary s viewer d" by (auto simp: listDiaries_def)
    show "(\<forall>w \<in> set (users s). u_username w = d_user r \<longrightarrow>
               dd_display_name r = u_display_name w \<and> dd_profile_img r = u_profile_img w) \<and>
            ((\<forall>w \<in> set (users s). u_username w \<noteq> d_user r) \<longrightarrow>
               dd_display_name r = Some unknown_label \<and> dd_profile_img r = None) \<and>
            dd_like_count r = like_count s (d_id r) \<and>
            dd_is_liked r = is_liked s (d_id r) viewer"
      unfolding r decorate_diary_eq using look by (auto simp: )
  qed
  have comment: "\<forall>r \<in> set (listComments s diary_id).
            (\<forall>w \<in> set (users s). u_username w = c_user r \<longrightarrow>
               dc_display_name r = u_display_name w \<and> dc_profile_img r = u_profile_img w) \<and>
            ((\<forall>w \<in> set (users s). u_username w \<noteq> c_user r) \<longrightarrow>
               dc_display_name r = Some unknown_label \<and> dc_profile_img r = None)"
  proof
    fix r assume "r \<in> set (listComments s diary_id)"
    then obtain c where r: "r = decorate_comment s c" by (auto simp: listComments_def)
    show "(\<forall>w \<in> set (users s). u_username w = c_user r \<longrightarrow>
               dc_display_name r = u_display_name w \<and> dc_profile_img r = u_profile_img w) \<and>
            ((\<forall>w \<in> set (users s). u_username w \<noteq> c_user r) \<longrightarrow>
               dc_display_name r = Some unknown_label \<and> dc_profile_img r = None)"
      unfolding r decorate_comment_eq using look by (auto simp: )
  qed
  from diary comment show ?thesis by blast
qed

text \<open>At the example store, as seen by alice: the diary of bob, the diary of carol (who has
  no user record), and carol's comment on diary 3.\<close>

theorem decoration_fields_witness:
  "wf_store example_store \<and>
   (\<exists>r \<in> set (listDiaries example_store ''alice'' None None).
      d_user r = ''bob'' \<and> dd_display_name r = Some ''Bob'' \<and>
      dd_profile_img r = Some ''data:image/png;base64,AAAA'' \<and>
      dd_like_count r = 2 \<and> dd_is_liked r) \<and>
   (\<exists>r \<in> set (listDiaries example_store ''alice'' None None).
      d_user r = ''carol'' \<and> dd_display_name r = Some unknown_label \<and> dd_profile_img r = None \<and>
      dd_like_count r = 0 \<and> \<not> dd_is_liked r) \<and>
   (\<exists>r \<in> set (listComments example_store 3).
      c_user r = ''carol'' \<and> dc_display_name r = Some unknown_label \<and> dc_profile_img r = None)"
proof -
  let ?b = "decorate_diary example_store ''alice''
             \<lparr>d_id = 3, d_user = ''bob'', d_content = ''sunny'', d_image = None,
              d_date = ''2024. 01. 04'', d_mood = ''happy'', d_is_private = 0\<rparr>"
  let ?c = "decorate_diary example_store ''alice''
             \<lparr>d_id = 4, d_user = ''carol'', d_content = ''old entry'', d_image = None,
              d_date = ''2024. 01. 01'', d_mood = ''happy'', d_is_private = 0\<rparr>"
  let ?k = "decorate_comment example_store
             \<lparr>c_id = 6, c_diary_id = 3, c_user = ''carol'', c_content = ''great'',
              c_date = ''2024. 01. 04''\<rparr>"
  let ?bob = "\<lparr>u_id = 1, u_username = ''bob'', u_password = ''pw2'', u_display_name = Some ''Bob'',
          u_bio = Some ''hi'', u_profile_img = Some ''data:image/png;base64,AAAA'',
          u_created_at = ''2024-01-03 03:04:05'', u_ip_address = Some ''10.0.0.2''\<rparr>"
  note inst = decoration_fields[OF wf_example, of "''alice''" None None 3]
  have mb: "?b \<in> set (listDiaries example_store ''alice'' None None)"
    and mc: "?c \<in> set (listDiaries example_store ''alice'' None None)"
    by (simp_all add: listDiaries_def set_sort_by_id diary_query_def truthy_def example_store_def)
  have mk: "?k \<in> set (listComments example_store 3)"
    by (simp add: listComments_def set_sort_by_id example_store_def)
  have ub: "d_user ?b = ''bob''" and uc: "d_user ?c = ''carol''" and uk: "c_user ?k = ''carol''"
    and ib: "d_id ?b = 3" and ic: "d_id ?c = 4"
    by (simp_all add: decorate_diary_eq decorate_comment_eq)
  have bob: "?bob \<in> set (users example_store)" "u_username ?bob = ''bob''"
    and nocarol: "\<forall>w \<in> set (users example_store). u_username w \<noteq> ''carol''"
    by (simp_all add: example_store_def)
  have counts: "like_count example_store 3 = 2" "is_liked example_store 3 ''alice''"
    "like_count example_store 4 = 0" "\<not> is_liked example_store 4 ''alice''"
    by (simp_all add: like_count_def countDocuments_def is_liked_def example_store_def)
  note pb = inst[THEN conjunct1, THEN bspec, OF mb]
  note pc = inst[THEN conjunct1, THEN bspec, OF mc]
  note pk = inst[THEN conjunct2, THEN bspec, OF mk]
  have fb:
    "dd_display_name ?b = Some ''Bob'' \<and> dd_profile_img ?b = Some ''data:image/png;base64,AAAA'' \<and>
     dd_like_count ?b = 2 \<and> dd_is_liked ?b"
    using pb[THEN conjunct1, THEN bspec, OF bob(1)] pb[THEN conjunct2, THEN conjunct2] ub ib counts
    by simp
  have fc:
    "dd_display_name ?c = Some unknown_label \<and> dd_profile_img ?c = None \<and>
     dd_like_count ?c = 0 \<and> \<not> dd_is_liked ?c"
    using pc[THEN conjunct2, THEN conjunct1] pc[THEN conjunct2, THEN conjunct2] uc ic nocarol counts
    by simp
  have fk: "dc_display_name ?k = Some unknown_label \<and> dc_profile_img ?k = None"
    using pk[THEN conjunct2] uk nocarol by simp
  have e1: "\<exists>r \<in> set (listDiaries example_store ''alice'' None None).
      d_user r = ''bob'' \<and> dd_display_name r = Some ''Bob'' \<and>
      dd_profile_img r = Some ''data:image/png;base64,AAAA'' \<and>
      dd_like_count r = 2 \<and> dd_is_liked r"
    by (rule bexI[OF _ mb]) (simp add: ub fb)
  have e2: "\<exists>r \<in> set (listDiaries example_store ''alice'' None None).
      d_user r = ''carol'' \<and> dd_display_name r = Some unknown_label \<and> dd_profile_img r = None \<and>
      dd_like_count r = 0 \<and> \<not> dd_is_liked r"
    by (rule bexI[OF _ mc]) (simp add: uc fc)
  have e3: "\<exists>r \<in> set (listComments example_store 3).
      c_user r = ''carol'' \<and> dc_display_name r = Some unknown_label \<and> dc_profile_img r = None"
    by (rule bexI[OF _ mk]) (simp add: uk fk)
  from wf_example e1 e2 e3 show ?thesis by (intro conjI)
qed

subsection \<open>Likes\<close>

lemma toggle_present:
  assumes wf: "wf_store s" and l: "is_liked s d u"
  shows "toggleLike s d u =
          (Liked False, s\<lparr>likes := filter (\<lambda>l. \<not> (l_diary_id l = d \<and> l_user l = u)) (likes s)\<rparr>)"
proof -
  from l obtain e where e: "find (\<lambda>l. l_diary_id l = d \<and> l_user l = u) (likes s) = Some e"
    by (cases "find (\<lambda>l. l_diary_id l = d \<and> l_user l = u) (likes s)")
       (auto simp: is_liked_def find_None_iff')
  then have mem: "e \<in> set (likes s)" and pe: "l_diary_id e = d" "l_user e = u"
    using find_SomeD[OF e] by auto
  have "deleteOne (\<lambda>l. l_id l = l_id e) (likes s) = filter (\<lambda>x. x \<noteq> e) (likes s)"
    using wf mem by (intro deleteOne_key) (simp add: wf_store_def)
  also have "\<dots> = filter (\<lambda>x. (l_diary_id x, l_user x) \<noteq> (l_diary_id e, l_user e)) (likes s)"
    using wf mem by (intro unique_pair_filter) (simp add: wf_store_def)
  finally show ?thesis using e pe by (simp add: toggleLike_def)
qed

lemma toggle_absent:
  assumes "\<not> is_liked s d u"
  shows "toggleLike s d u =
          (Liked True, s\<lparr>likes := likes s @ [\<lparr>l_id = next_id s, l_diary_id = d, l_user = u\<rparr>],
                        next_id := Suc (next_id s)\<rparr>)"
proof -
  from assms have "find (\<lambda>l. l_diary_id l = d \<and> l_user l = u) (likes s) = None"
    by (auto simp: is_liked_def find_None_iff')
  then show ?thesis by (simp add: toggleLike_def Like_create_def)
qed

lemma wf_toggleLike: "wf_store s \<Longrightarrow> wf_store (snd (toggleLike s d u))"
proof (cases "is_liked s d u")
  case True
  assume wf: "wf_store s"
  show ?thesis
    unfolding toggle_present[OF wf True] using wf
    by (auto simp: wf_store_def distinct_map_filter)
next
  case False
  assume wf: "wf_store s"
  show ?thesis
    unfolding toggle_absent[OF False] using wf False
    by (auto simp: wf_store_def is_liked_def less_Suc_eq)
qed

lemma like_count_present:
  assumes wf: "wf_store s" and l: "is_liked s d u"
  shows "like_count (snd (toggleLike s d u)) d' + (if d' = d then 1 else 0) = like_count s d'"
proof -
  from l obtain e where mem: "e \<in> set (likes s)" and pe: "l_diary_id e = d" "l_user e = u"
    by (auto simp: is_liked_def)
  have "length (filter (\<lambda>l. l_diary_id l = d')
          (filter (\<lambda>x. (l_diary_id x, l_user x) \<noteq> (l_diary_id e, l_user e)) (likes s)))
        + (if l_diary_id e = d' then 1 else 0) = length (filter (\<lambda>l. l_diary_id l = d') (likes s))"
    using wf mem by (intro count_remove) (simp add: wf_store_def)
  then show ?thesis
    unfolding toggle_present[OF wf l] using pe
    by (auto simp: like_count_def countDocuments_def)
qed

lemma is_liked_present:
  assumes wf: "wf_store s" and l: "is_liked s d u"
  shows "is_liked (snd (toggleLike s d u)) d' u' \<longleftrightarrow> is_liked s d' u' \<and> (d', u') \<noteq> (d, u)"
  unfolding toggle_present[OF wf l] by (auto simp: is_liked_def)

lemma is_liked_absent:
  assumes "\<not> is_liked s d u"
  shows "is_liked (snd (toggleLike s d u)) d' u' \<longleftrightarrow> is_liked s d' u' \<or> (d', u') = (d, u)"
  unfolding toggle_absent[OF assms] by (auto simp: is_liked_def)

lemma like_count_absent:
  assumes "\<not> is_liked s d u"
  shows "like_count (snd (toggleLike s d u)) d' = like_count s d' + (if d' = d then 1 else 0)"
  unfolding toggle_absent[OF assms] by (simp add: like_count_def countDocuments_def)

text \<open>Claim C3. In a well-formed store, \<open>toggleLike\<close> for a (diary, user) pair that has a
  like removes it and answers \<open>liked: false\<close>, the like count of the diary dropping by
  one; for a pair without a like it creates one and answers \<open>liked: true\<close>, the count
  rising by one. Two calls in sequence for the same pair give back the like state of every
  pair and the like count of every diary.\<close>

theorem toggleLike_involution:
  assumes wf: "wf_store s"
  shows "(is_liked s d u \<longrightarrow>
            fst (toggleLike s d u) = Liked False \<and>
            \<not> is_liked (snd (toggleLike s d u)) d u \<and>
            Suc (like_count (snd (toggleLike s d u)) d) = like_count s d) \<and>
         (\<not> is_liked s d u \<longrightarrow>
            fst (toggleLike s d u) = Liked True \<and>
            is_liked (snd (toggleLike s d u)) d u \<and>
            like_count (snd (toggleLike s d u)) d = Suc (like_count s d)) \<and>
         (\<forall>d' u'. is_liked (snd (toggleLike (snd (toggleLike s d u)) d u)) d' u' = is_liked s d' u') \<and>
         (\<forall>d'. like_count (snd (toggleLike (snd (toggleLike s d u)) d u)) d' = like_count s d')"
proof (cases "is_liked s d u")
  case True
  let ?s1 = "snd (toggleLike s d u)"
  have n1: "\<not> is_liked ?s1 d u" by (simp add: is_liked_present[OF wf True])
  have c1: "Suc (like_count ?s1 d) = like_count s d"
    using like_count_present[OF wf True, of d] by simp
  have l2: "is_liked (snd (toggleLike ?s1 d u)) d' u' = is_liked s d' u'" for d' u'
    using True by (auto simp: is_liked_absent[OF n1] is_liked_present[OF wf True])
  have c2: "like_count (snd (toggleLike ?s1 d u)) d' = like_count s d'" for d'
    using like_count_present[OF wf True, of d'] by (simp add: like_count_absent[OF n1])
  show ?thesis using True n1 c1 l2 c2 by (simp add: toggle_present[OF wf True])
next
  case False
  let ?s1 = "snd (toggleLike s d u)"
  have wf1: "wf_store ?s1" by (rule wf_toggleLike[OF wf])
  have y1: "is_liked ?s1 d u" by (simp add: is_liked_absent[OF False])
  have c1: "like_count ?s1 d = Suc (like_count s d)" by (simp add: like_count_absent[OF False])
  have l2: "is_liked (snd (toggleLike ?s1 d u)) d' u' = is_liked s d' u'" for d' u'
    using False by (auto simp: is_liked_absent[OF False] is_liked_present[OF wf1 y1])
  have c2: "like_count (snd (toggleLike ?s1 d u)) d' = like_count s d'" for d'
    using like_count_present[OF wf1 y1, of d'] by (simp add: like_count_absent[OF False])
  show ?thesis using False y1 c1 l2 c2 by (simp add: toggle_absent[OF False])
qed

text \<open>At the example store: alice likes diary 3, which has two likes; the first call removes
  her like, the second restores state and count.\<close>

theorem toggleLike_involution_witness:
  "wf_store example_store \<and> is_liked example_store 3 ''alice'' \<and>
   fst (toggleLike example_store 3 ''alice'') = Liked False \<and>
   \<not> is_liked (snd (toggleLike example_store 3 ''alice'')) 3 ''alice'' \<and>
   like_count example_store 3 = 2 \<and>
   like_count (snd (toggleLike example_store 3 ''alice'')) 3 = 1 \<and>
   like_count (snd (toggleLike (snd (toggleLike example_store 3 ''alice'')) 3 ''alice'')) 3 = 2"
proof -
  have l: "is_liked example_store 3 ''alice''" by (simp add: is_liked_def example_store_def)
  have c: "like_count example_store 3 = 2"
    by (simp add: like_count_def countDocuments_def example_store_def)
  show ?thesis
    using toggleLike_involution[OF wf_example, of 3 "''alice''"] l c wf_example by simp
qed

subsection \<open>Answers\<close>

lemma submit_existing:
  assumes wf: "wf_store s" and one: "one_answer_per_pair s"
    and e: "find (\<lambda>a. a_question_id a = q \<and> a_user a = u) (answers s) = Some e"
  shows "submitAnswer s q u c now =
           (Success, s\<lparr>answers := map (\<lambda>a. if a_question_id a = q \<and> a_user a = u
                                            then a\<lparr>a_content := c, a_date := getKSTDate False now\<rparr>
                                            else a) (answers s)\<rparr>)"
proof -
  have mem: "e \<in> set (answers s)" and pe: "a_question_id e = q" "a_user e = u"
    using find_SomeD[OF e] by auto
  let ?f = "\<lambda>a. a\<lparr>a_content := c, a_date := getKSTDate False now\<rparr>"
  have inj1: "inj_on a_id (set (answers s))" and inj2: "inj_on (\<lambda>a. (a_question_id a, a_user a)) (set (answers s))"
    using wf one by (simp_all add: wf_store_def one_answer_per_pair_def distinct_map)
  have "updateOne (\<lambda>a. a_id a = a_id e) ?f (answers s)
        = map (\<lambda>a. if a_id a = a_id e then ?f a else a) (answers s)"
    using wf by (intro updateOne_map) (simp add: wf_store_def)
  also have "\<dots> = map (\<lambda>a. if a_question_id a = q \<and> a_user a = u then ?f a else a) (answers s)"
  proof (rule map_cong[OF refl])
    fix a assume a: "a \<in> set (answers s)"
    have "a_id a = a_id e \<longleftrightarrow> a = e" using inj1 a mem by (auto dest: inj_onD)
    moreover have "a_question_id a = q \<and> a_user a = u \<longleftrightarrow> a = e"
      using inj_onD[OF inj2, of a e] a mem pe by auto
    ultimately show "(if a_id a = a_id e then ?f a else a) =
                     (if a_question_id a = q \<and> a_user a = u then ?f a else a)" by simp
  qed
  finally show ?thesis using e by (simp add: submitAnswer_def)
qed

lemma submit_new:
  assumes "find (\<lambda>a. a_question_id a = q \<and> a_user a = u) (answers s) = None"
  shows "submitAnswer s q u c now =
           (Success, s\<lparr>answers := answers s @
                          [\<lparr>a_id = next_id s, a_question_id = q, a_user = u,
                            a_content = c, a_date = getKSTDate False now\<rparr>],
                        next_id := Suc (next_id s)\<rparr>)"
  using assms by (simp add: submitAnswer_def)

lemma submit_step:
  assumes wf: "wf_store s" and one: "one_answer_per_pair s"
  shows "wf_store (snd (submitAnswer s q u c now)) \<and>
         one_answer_per_pair (snd (submitAnswer s q u c now)) \<and>
         (\<exists>a. answers_for (snd (submitAnswer s q u c now)) q u = [a] \<and> a_content a = c \<and>
               a_date a = getKSTDate False now)"
proof (cases "find (\<lambda>a. a_question_id a = q \<and> a_user a = u) (answers s)")
  case None
  then have no: "\<forall>a \<in> set (answers s). \<not> (a_question_id a = q \<and> a_user a = u)"
    by (simp add: find_None_iff')
  then have "filter (\<lambda>a. a_question_id a = q \<and> a_user a = u) (answers s) = []"
    by (simp add: filter_empty_conv)
  then show ?thesis
    unfolding submit_new[OF None] using wf one no
    by (auto simp: wf_store_def one_answer_per_pair_def answers_for_def less_Suc_eq)
next
  case (Some e)
  have mem: "e \<in> set (answers s)" and pe: "a_question_id e = q" "a_user e = u"
    using find_SomeD[OF Some] by auto
  let ?f = "\<lambda>a. a\<lparr>a_content := c, a_date := getKSTDate False now\<rparr>"
  let ?g = "\<lambda>a. if a_question_id a = q \<and> a_user a = u then ?f a else a"
  have ids: "map a_id (map ?g (answers s)) = map a_id (answers s)"
    and pairs: "map (\<lambda>a. (a_question_id a, a_user a)) (map ?g (answers s))
                = map (\<lambda>a. (a_question_id a, a_user a)) (answers s)"
    by (simp_all add: o_def if_distrib cong: if_cong)
  have single: "filter (\<lambda>a. (a_question_id a, a_user a) = (a_question_id e, a_user e)) (answers s) = [e]"
    using one mem by (intro filter_key_single) (simp add: one_answer_per_pair_def)
  have "filter (\<lambda>a. a_question_id a = q \<and> a_user a = u) (map ?g (answers s))
        = map ?g (filter (\<lambda>a. a_question_id a = q \<and> a_user a = u) (answers s))"
    by (rule filter_map_pres) simp
  also have "\<dots> = [?f e]" using single pe by simp
  finally have af: "filter (\<lambda>a. a_question_id a = q \<and> a_user a = u) (map ?g (answers s)) = [?f e]" .
  have wf': "wf_store (s\<lparr>answers := map ?g (answers s)\<rparr>)"
    using wf ids by (auto simp: wf_store_def simp del: map_map)
  have one': "one_answer_per_pair (s\<lparr>answers := map ?g (answers s)\<rparr>)"
    using one pairs by (simp add: one_answer_per_pair_def del: map_map)
  show ?thesis
    unfolding submit_existing[OF wf one Some] using wf' one' af
    by (simp add: answers_for_def)
qed

lemma submitAnswers_last:
  assumes "calls \<noteq> []" "wf_store s" "one_answer_per_pair s"
  shows "\<exists>a. answers_for (submitAnswers s q u calls) q u = [a] \<and> a_content a = fst (last calls)"
  using assms
proof (induction calls arbitrary: s)
  case Nil
  then show ?case by simp
next
  case (Cons call calls)
  obtain c now where call: "call = (c, now)" by (cases call)
  note step = submit_step[OF Cons.prems(2,3), of q u c now]
  show ?case
  proof (cases "calls = []")
    case True
    with step call show ?thesis by auto
  next
    case False
    with Cons.IH[of "snd (submitAnswer s q u c now)"] step call show ?thesis by simp
  qed
qed

lemma submit_again:
  assumes wf: "wf_store s" and one: "one_answer_per_pair s"
  shows "snd (submitAnswer (snd (submitAnswer s q u c now)) q u c now') =
         (snd (submitAnswer s q u c now))
           \<lparr>answers := map (\<lambda>a. if a_question_id a = q \<and> a_user a = u
                                  then a\<lparr>a_date := getKSTDate False now'\<rparr> else a)
                         (answers (snd (submitAnswer s q u c now)))\<rparr>"
proof -
  let ?s1 = "snd (submitAnswer s q u c now)"
  from submit_step[OF wf one, of q u c now] obtain a where
    wf1: "wf_store ?s1" and one1: "one_answer_per_pair ?s1" and
    a: "answers_for ?s1 q u = [a]" "a_content a = c"
    by blast
  have f: "find (\<lambda>a. a_question_id a = q \<and> a_user a = u) (answers ?s1) = Some a"
    using a(1) by (simp add: find_filter answers_for_def)
  have "map (\<lambda>x. if a_question_id x = q \<and> a_user x = u
                   then x\<lparr>a_content := c, a_date := getKSTDate False now'\<rparr> else x) (answers ?s1)
        = map (\<lambda>x. if a_question_id x = q \<and> a_user x = u then x\<lparr>a_date := getKSTDate False now'\<rparr> else x)
            (answers ?s1)"
  proof (rule map_cong[OF refl])
    fix x assume x: "x \<in> set (answers ?s1)"
    show "(if a_question_id x = q \<and> a_user x = u
           then x\<lparr>a_content := c, a_date := getKSTDate False now'\<rparr> else x) =
          (if a_question_id x = q \<and> a_user x = u then x\<lparr>a_date := getKSTDate False now'\<rparr> else x)"
    proof (cases "a_question_id x = q \<and> a_user x = u")
      case True
      with x have "x \<in> set (answers_for ?s1 q u)" by (simp add: answers_for_def)
      with a have "a_content x = c" by simp
      with True show ?thesis by (cases x) auto
    next
      case False
      then show ?thesis by auto
    qed
  qed
  then show ?thesis
    unfolding submit_existing[OF wf1 one1 f] by simp
qed

lemma submit_same:
  assumes wf: "wf_store s" and one: "one_answer_per_pair s"
  shows "snd (submitAnswer (snd (submitAnswer s q u c now)) q u c now) = snd (submitAnswer s q u c now)"
proof -
  let ?s1 = "snd (submitAnswer s q u c now)"
  from submit_step[OF wf one, of q u c now] obtain a where
    a: "answers_for ?s1 q u = [a]" "a_date a = getKSTDate False now"
    by blast
  have "map (\<lambda>x. if a_question_id x = q \<and> a_user x = u then x\<lparr>a_date := getKSTDate False now\<rparr> else x)
          (answers ?s1) = answers ?s1"
  proof (rule map_idI)
    fix x assume x: "x \<in> set (answers ?s1)"
    show "(if a_question_id x = q \<and> a_user x = u then x\<lparr>a_date := getKSTDate False now\<rparr> else x) = x"
    proof (cases "a_question_id x = q \<and> a_user x = u")
      case True
      with x have "x \<in> set (answers_for ?s1 q u)" by (simp add: answers_for_def)
      with a have "a_date x = getKSTDate False now" by simp
      with True show ?thesis by (cases x) auto
    next
      case False
      then show ?thesis by auto
    qed
  qed
  then show ?thesis unfolding submit_again[OF wf one] by simp
qed

text \<open>Claim C4. From a well-formed store with at most one answer per (question, user) pair,
  after any non-empty run of serialized \<open>submitAnswer\<close> calls for a pair exactly one
  answer is stored for the pair, and its content is that of the last call. Repeating a
  call with the same content and clock reading leaves the store as it is; with another
  clock reading the stored contents are still the same.\<close>

theorem submitAnswer_upsert:
  assumes "wf_store s" and "one_answer_per_pair s" and "calls \<noteq> []"
  shows "(\<exists>a. answers_for (submitAnswers s q u calls) q u = [a] \<and> a_content a = fst (last calls)) \<and>
         snd (submitAnswer (snd (submitAnswer s q u c now)) q u c now) = snd (submitAnswer s q u c now) \<and>
         map a_content (answers (snd (submitAnswer (snd (submitAnswer s q u c now)) q u c now'))) =
           map a_content (answers (snd (submitAnswer s q u c now)))"
proof -
  have "map a_content (answers (snd (submitAnswer (snd (submitAnswer s q u c now)) q u c now'))) =
        map a_content (answers (snd (submitAnswer s q u c now)))"
    unfolding submit_again[OF assms(1,2)] by (simp add: o_def if_distrib cong: if_cong)
  with submitAnswers_last[OF assms(3,1,2)] submit_same[OF assms(1,2)] show ?thesis by blast
qed

text \<open>At the example store: alice, who has answered question 9, submits twice more.\<close>

theorem submitAnswer_upsert_witness:
  "wf_store example_store \<and> one_answer_per_pair example_store \<and>
   (\<exists>a. answers_for (submitAnswers example_store 9 ''alice''
            [(''first'', ''2024-01-06T10:00:00.000Z''), (''second'', ''2024-01-07T10:00:00.000Z'')])
            9 ''alice'' = [a] \<and> a_content a = ''second'')"
  using submitAnswer_upsert[OF wf_example one_example,
      of "[(''first'', ''2024-01-06T10:00:00.000Z''), (''second'', ''2024-01-07T10:00:00.000Z'')]"
         9 "''alice''"]
    wf_example one_example
  by simp

subsection \<open>Deleting a diary\<close>

text \<open>Claim C5. In a well-formed store, after \<open>deleteDiary\<close> there is no diary with the
  given id, no comment and no like that refers to it; the diaries, comments and likes that
  remain are exactly those of other ids, in their order, and the other collections are
  as before.\<close>

theorem deleteDiary_cascade:
  assumes "wf_store s"
  shows "(\<forall>d \<in> set (diaries (snd (deleteDiary s diary_id))). d_id d \<noteq> diary_id) \<and>
         (\<forall>c \<in> set (comments (snd (deleteDiary s diary_id))). c_diary_id c \<noteq> diary_id) \<and>
         (\<forall>l \<in> set (likes (snd (deleteDiary s diary_id))). l_diary_id l \<noteq> diary_id) \<and>
         diaries (snd (deleteDiary s diary_id)) = filter (\<lambda>d. d_id d \<noteq> diary_id) (diaries s) \<and>
         comments (snd (deleteDiary s diary_id)) = filter (\<lambda>c. c_diary_id c \<noteq> diary_id) (comments s) \<and>
         likes (snd (deleteDiary s diary_id)) = filter (\<lambda>l. l_diary_id l \<noteq> diary_id) (likes s) \<and>
         users (snd (deleteDiary s diary_id)) = users s \<and>
         questions (snd (deleteDiary s diary_id)) = questions s \<and>
         answers (snd (deleteDiary s diary_id)) = answers s \<and>
         fst (deleteDiary s diary_id) = Success"
proof -
  have "distinct (map d_id (diaries s))" using assms by (simp add: wf_store_def)
  then have "deleteOne (\<lambda>d. d_id d = diary_id) (diaries s) = filter (\<lambda>d. d_id d \<noteq> diary_id) (diaries s)"
    by (rule deleteOne_filter)
  then show ?thesis by (simp add: deleteDiary_def deleteMany_def)
qed

text \<open>At the example store: deleting diary 3 leaves diaries 2 and 4, the comment on diary 2
  and the like on diary 2.\<close>

theorem deleteDiary_cascade_witness:
  "wf_store example_store \<and>
   map d_id (diaries (snd (deleteDiary example_store 3))) = [2, 4] \<and>
   map c_id (comments (snd (deleteDiary example_store 3))) = [11] \<and>
   map l_id (likes (snd (deleteDiary example_store 3))) = [12] \<and>
   map c_diary_id (comments (snd (deleteDiary example_store 3))) = [2] \<and>
   map l_diary_id (likes (snd (deleteDiary example_store 3))) = [2]"
  using deleteDiary_cascade[OF wf_example, of 3] wf_example
  by (simp add: example_store_def)

lemma wf_deleteDiary: "wf_store s \<Longrightarrow> wf_store (snd (deleteDiary s diary_id))"
proof -
  assume wf: "wf_store s"
  have "deleteOne (\<lambda>d. d_id d = diary_id) (diaries s) = filter (\<lambda>d. d_id d \<noteq> diary_id) (diaries s)"
    using wf by (intro deleteOne_filter) (simp add: wf_store_def)
  then show ?thesis using wf
    by (auto simp: deleteDiary_def deleteMany_def wf_store_def distinct_map_filter)
qed

subsection \<open>Profile update\<close>

text \<open>Claim C10. In a well-formed store, for a stored user with the given username,
  \<open>updateProfile\<close> leaves that user's record with the new display name and bio, with
  the avatar replaced by the encoded upload when a file is sent and kept otherwise, and
  with every other field (id, username, credential, creation timestamp, network address)
  as it was; every other user and every other collection is unchanged.\<close>

theorem updateProfile_frame:
  assumes wf: "wf_store s" and mem: "u \<in> set (users s)" and n: "u_username u = username"
  shows "fst (updateProfile enc s username display_name bio file) = Success \<and>
         find (\<lambda>x. u_username x = username) (users (snd (updateProfile enc s username display_name bio file))) =
           Some (u\<lparr>u_display_name := Some display_name, u_bio := Some bio,
                   u_profile_img := (case file of None \<Rightarrow> u_profile_img u
                                     | Some f \<Rightarrow> bufferToBase64 enc (Some f))\<rparr>) \<and>
         users (snd (updateProfile enc s username display_name bio file)) =
           map (\<lambda>x. if u_username x = username
                     then x\<lparr>u_display_name := Some display_name, u_bio := Some bio,
                            u_profile_img := (case file of None \<Rightarrow> u_profile_img x
                                              | Some f \<Rightarrow> bufferToBase64 enc (Some f))\<rparr>
                     else x) (users s) \<and>
         snd (updateProfile enc s username display_name bio file) =
           s\<lparr>users := users (snd (updateProfile enc s username display_name bio file))\<rparr>"
proof -
  let ?g = "\<lambda>x. x\<lparr>u_display_name := Some display_name, u_bio := Some bio,
                            u_profile_img := (case file of None \<Rightarrow> u_profile_img x
                                              | Some f \<Rightarrow> bufferToBase64 enc (Some f))\<rparr>"
  let ?h = "\<lambda>x. if u_username x = username then ?g x else x"
  have du: "distinct (map u_username (users s))" using wf by (simp add: wf_store_def)
  have upd: "snd (updateProfile enc s username display_name bio file) =
             s\<lparr>users := map ?h (users s)\<rparr>"
    by (cases "file") (simp_all add: updateProfile_def Let_def updateOne_map[OF du])
  have names: "map u_username (map ?h (users s)) = map u_username (users s)"
    by (simp add: o_def if_distrib cong: if_cong)
  have "?h u \<in> set (map ?h (users s))" using mem by (rule imageI[of u "set (users s)" ?h, folded set_map])
  moreover have "distinct (map u_username (map ?h (users s)))" using du by (simp only: names)
  ultimately have "find (\<lambda>x. u_username x = u_username (?h u)) (map ?h (users s)) = Some (?h u)"
    by (intro find_unique)
  then have "find (\<lambda>x. u_username x = username) (map ?h (users s)) = Some (?g u)"
    using n by simp
  then show ?thesis unfolding upd by (simp add: updateProfile_def)
qed

text \<open>At the example store: alice renames herself, once without and once with an upload.\<close>

theorem updateProfile_frame_witness:
  "wf_store example_store \<and>
   find (\<lambda>x. u_username x = ''alice'')
     (users (snd (updateProfile (\<lambda>b. ''QUJD'') example_store ''alice'' ''Al'' ''new bio'' None))) =
     Some \<lparr>u_id = 0, u_username = ''alice'', u_password = ''pw1'', u_display_name = Some ''Al'',
           u_bio = Some ''new bio'', u_profile_img = None, u_created_at = ''2024-01-02 03:04:05'',
           u_ip_address = Some ''10.0.0.1''\<rparr> \<and>
   find (\<lambda>x. u_username x = ''alice'')
     (users (snd (updateProfile (\<lambda>b. ''QUJD'') example_store ''alice'' ''Al'' ''new bio''
        (Some \<lparr>mimetype = ''image/png'', buffer = ''ABC''\<rparr>)))) =
     Some \<lparr>u_id = 0, u_username = ''alice'', u_password = ''pw1'', u_display_name = Some ''Al'',
           u_bio = Some ''new bio'', u_profile_img = Some ''data:image/png;base64,QUJD'',
           u_created_at = ''2024-01-02 03:04:05'', u_ip_address = Some ''10.0.0.1''\<rparr>"
proof -
  let ?alice = "\<lparr>u_id = 0, u_username = ''alice'', u_password = ''pw1'', u_display_name = Some ''Alice'',
          u_bio = Some ''hello'', u_profile_img = None, u_created_at = ''2024-01-02 03:04:05'',
          u_ip_address = Some ''10.0.0.1''\<rparr>"
  have mem: "?alice \<in> set (users example_store)" by (simp add: example_store_def)
  have n: "u_username ?alice = ''alice''" by simp
  show ?thesis
    using updateProfile_frame[OF wf_example mem n, of "\<lambda>b. ''QUJD''" "''Al''" "''new bio''" None,
        THEN conjunct2, THEN conjunct1]
      updateProfile_frame[OF wf_example mem n, of "\<lambda>b. ''QUJD''" "''Al''" "''new bio''"
        "Some \<lparr>mimetype = ''image/png'', buffer = ''ABC''\<rparr>", THEN conjunct2, THEN conjunct1]
      wf_example
    by (simp add: bufferToBase64_def)
qed

lemma wf_updateProfile:
  assumes "wf_store s"
  shows "wf_store (snd (updateProfile enc s username display_name bio file))"
proof -
  let ?f = "\<lambda>u. u\<lparr>u_display_name := Some display_name, u_bio := Some bio\<rparr>"
  let ?f' = "case file of Some f \<Rightarrow> (\<lambda>u. (?f u)\<lparr>u_profile_img := bufferToBase64 enc (Some f)\<rparr>)
             | None \<Rightarrow> ?f"
  let ?h = "\<lambda>x. if u_username x = username then ?f' x else x"
  have du: "distinct (map u_username (users s))" using assms by (simp add: wf_store_def)
  have upd: "snd (updateProfile enc s username display_name bio file) = s\<lparr>users := map ?h (users s)\<rparr>"
    by (simp add: updateProfile_def Let_def updateOne_map[OF du])
  have keep: "u_username (?f' x) = u_username x" "u_id (?f' x) = u_id x" for x
    by (cases "file"; simp)+
  have "map u_username (map ?h (users s)) = map u_username (users s)"
    and "map u_id (map ?h (users s)) = map u_id (users s)"
    by (simp_all add: o_def if_distrib keep cong: if_cong)
  then show ?thesis using assms unfolding upd
    by (auto simp: wf_store_def keep simp del: map_map split: if_splits)
qed

subsection \<open>Registration and login\<close>

lemma exists_username: "(\<exists>x \<in> set us. Some (u_username x) = Some n) \<longleftrightarrow> find (\<lambda>x. u_username x = n) us \<noteq> None"
  by (simp add: find_exists del: not_None_eq)

lemma User_create_cases:
  "User_create s username password display_name bio profile_img created_at ip_address =
     (if (\<exists>x \<in> set (users s). Some (u_username x) = username) \<or> \<not> truthy username \<or> \<not> truthy password
      then Inl (if truthy username \<and> truthy password then DuplicateKeyError else ValidatorError)
      else Inr (s\<lparr>users := users s @
                   [\<lparr>u_id = next_id s, u_username = the username, u_password = the password,
                     u_display_name = display_name, u_bio = bio, u_profile_img = profile_img,
                     u_created_at = created_at, u_ip_address = ip_address\<rparr>],
                 next_id := Suc (next_id s)\<rparr>))"
  by (cases username; cases password)
     (auto simp: User_create_def truthy_def find_exists simp del: not_None_eq)

lemma register_cases:
  "register s username password forwarded remote now =
     (if (\<exists>x \<in> set (users s). Some (u_username x) = username) \<or> \<not> truthy username \<or> \<not> truthy password
      then (Failure DuplicateIdentity, s)
      else (Success,
            s\<lparr>users := users s @
                 [\<lparr>u_id = next_id s, u_username = the username, u_password = the password,
                   u_display_name = username, u_bio = Some welcome_bio, u_profile_img = None,
                   u_created_at = getKSTDate True now, u_ip_address = client_ip forwarded remote\<rparr>],
               next_id := Suc (next_id s)\<rparr>))"
  by (simp add: register_def User_create_cases)

lemma register_part000_cases:
  assumes "\<And>p. bcrypt_hash p \<noteq> []"
  shows "register_part000 bcrypt_hash s username password forwarded remote now =
     (if (\<exists>x \<in> set (users s). Some (u_username x) = username) \<or> \<not> truthy username \<or> password = None
      then (Failure DuplicateIdentity, s)
      else (Success,
            s\<lparr>users := users s @
                 [\<lparr>u_id = next_id s, u_username = the username,
                   u_password = bcrypt_hash (the password),
                   u_display_name = username, u_bio = Some welcome_bio, u_profile_img = None,
                   u_created_at = getKSTDate True now, u_ip_address = client_ip forwarded remote\<rparr>],
               next_id := Suc (next_id s)\<rparr>))"
  using assms by (cases password) (auto simp: register_part000_def User_create_cases truthy_def)

lemma login_unknown:
  "\<forall>u \<in> set (users s). Some (u_username u) \<noteq> username \<Longrightarrow>
   login s username password = Failure UnknownIdentity \<and>
   login_part000 bcrypt_compare s username password = Failure UnknownIdentity"
  by (simp add: login_def login_part000_def find_None_iff'[THEN iffD2])

lemma login_found:
  assumes "wf_store s" "u \<in> set (users s)" "Some (u_username u) = username"
  shows "find (\<lambda>x. Some (u_username x) = username) (users s) = Some u"
proof -
  have "distinct (map u_username (users s))" using assms(1) by (simp add: wf_store_def)
  then have "find (\<lambda>x. u_username x = u_username u) (users s) = Some u"
    using assms(2) by (rule find_unique)
  then show ?thesis using assms(3) by auto
qed

lemma register_outcomes:
  "(fst (register s username password forwarded remote now) = Failure DuplicateIdentity \<longleftrightarrow>
      (\<exists>x \<in> set (users s). Some (u_username x) = username) \<or> \<not> truthy username \<or> \<not> truthy password) \<and>
   (fst (register s username password forwarded remote now) = Failure DuplicateIdentity \<longrightarrow>
      snd (register s username password forwarded remote now) = s) \<and>
   (fst (register s username password forwarded remote now) \<noteq> Failure DuplicateIdentity \<longrightarrow>
      fst (register s username password forwarded remote now) = Success \<and>
      (\<exists>nu. users (snd (register s username password forwarded remote now)) = users s @ [nu] \<and>
            Some (u_username nu) = username \<and> Some (u_password nu) = password))"
  by (cases username; cases password) (auto simp: register_cases truthy_def)

lemma register_part000_outcomes:
  assumes "\<And>p. bcrypt_hash p \<noteq> []"
  shows
  "(fst (register_part000 bcrypt_hash s username password forwarded remote now) = Failure DuplicateIdentity \<longleftrightarrow>
      (\<exists>x \<in> set (users s). Some (u_username x) = username) \<or> \<not> truthy username \<or> password = None) \<and>
   (fst (register_part000 bcrypt_hash s username password forwarded remote now) = Failure DuplicateIdentity \<longrightarrow>
      snd (register_part000 bcrypt_hash s username password forwarded remote now) = s) \<and>
   (fst (register_part000 bcrypt_hash s username password forwarded remote now) \<noteq> Failure DuplicateIdentity \<longrightarrow>
      fst (register_part000 bcrypt_hash s username password forwarded remote now) = Success \<and>
      (\<exists>nu. users (snd (register_part000 bcrypt_hash s username password forwarded remote now)) = users s @ [nu] \<and>
            Some (u_username nu) = username \<and>
            Some (u_password nu) = map_option bcrypt_hash password))"
  by (cases username; cases password) (auto simp: register_part000_cases[OF assms] truthy_def)

lemma login_outcomes:
  "((\<forall>u \<in> set (users s). Some (u_username u) \<noteq> username) \<longrightarrow>
      login s username password = Failure UnknownIdentity) \<and>
   (wf_store s \<longrightarrow>
      (\<forall>u \<in> set (users s). Some (u_username u) = username \<longrightarrow>
         login s username password =
           (if password = Some (u_password u) then LoggedIn (u_username u)
            else Failure InvalidCredential)))"
  using login_unknown[where s=s and username=username and password=password]
    login_found[where s=s and username=username]
  by (auto simp: login_def)

lemma login_part000_outcomes:
  "((\<forall>u \<in> set (users s). Some (u_username u) \<noteq> username) \<longrightarrow>
      login_part000 bcrypt_compare s username password = Failure UnknownIdentity) \<and>
   (wf_store s \<longrightarrow>
      (\<forall>u \<in> set (users s). Some (u_username u) = username \<longrightarrow>
         (\<forall>p. password = Some p \<longrightarrow>
            login_part000 bcrypt_compare s username password =
              (if bcrypt_compare p (u_password u) then LoggedIn (u_username u)
               else Failure InvalidCredential))))"
  using login_unknown[where s=s and username=username and password=password
      and bcrypt_compare=bcrypt_compare]
    login_found[where s=s and username=username]
  by (auto simp: login_part000_def)

text \<open>Claim C6, as stated, fails: a registration with a fresh username and no password is
  answered with the DuplicateIdentity error, because the handler answers every error of
  \<open>User.create\<close> with that body.\<close>

theorem register_duplicate_counterexample:
  "fst (register empty_store (Some ''bob'') None None None ''2024-01-02T03:04:05.000Z'')
     = Failure DuplicateIdentity \<and>
   ''bob'' \<notin> set (map u_username (users empty_store))"
  by (simp add: register_def User_create_def empty_store_def)

text \<open>Claim C6, amended. \<open>register\<close> fails with the DuplicateIdentity error exactly when
  the username exists already, or the username is missing or empty, or the secret is
  missing (in server.js also when it is empty); the store is then unchanged, and otherwise
  the reply is success and one user with that username is added. \<open>login\<close> fails with
  UnknownIdentity when no stored user has the username; for a stored user it fails with
  InvalidCredential when the secret does not match the stored credential and otherwise
  succeeds with the stored username. The four conjuncts are: \<open>/register\<close> of server.js,
  \<open>/register\<close> of part_000 (for a hash function that never returns the empty string),
  \<open>/login\<close> of server.js, \<open>/login\<close> of part_000 (for a secret that is present).\<close>

theorem register_login_outcomes:
  assumes "\<And>p. bcrypt_hash p \<noteq> []"
  shows
  "((fst (register s username password forwarded remote now) = Failure DuplicateIdentity \<longleftrightarrow>
      (\<exists>x \<in> set (users s). Some (u_username x) = username) \<or> \<not> truthy username \<or> \<not> truthy password) \<and>
   (fst (register s username password forwarded remote now) = Failure DuplicateIdentity \<longrightarrow>
      snd (register s username password forwarded remote now) = s) \<and>
   (fst (register s username password forwarded remote now) \<noteq> Failure DuplicateIdentity \<longrightarrow>
      fst (register s username password forwarded remote now) = Success \<and>
      (\<exists>nu. users (snd (register s username password forwarded remote now)) = users s @ [nu] \<and>
            Some (u_username nu) = username \<and> Some (u_password nu) = password))) \<and>
   ((fst (register_part000 bcrypt_hash s username password forwarded remote now) = Failure DuplicateIdentity \<longleftrightarrow>
      (\<exists>x \<in> set (users s). Some (u_username x) = username) \<or> \<not> truthy username \<or> password = None) \<and>
   (fst (register_part000 bcrypt_hash s username password forwarded remote now) = Failure DuplicateIdentity \<longrightarrow>
      snd (register_part000 bcrypt_hash s username password forwarded remote now) = s) \<and>
   (fst (register_part000 bcrypt_hash s username password forwarded remote now) \<noteq> Failure DuplicateIdentity \<longrightarrow>
      fst (register_part000 bcrypt_hash s username password forwarded remote now) = Success \<and>
      (\<exists>nu. users (snd (register_part000 bcrypt_hash s username password forwarded remote now)) = users s @ [nu] \<and>
            Some (u_username nu) = username \<and>
            Some (u_password nu) = map_option bcrypt_hash password))) \<and>
   (((\<forall>u \<in> set (users s). Some (u_username u) \<noteq> username) \<longrightarrow>
      login s username password = Failure UnknownIdentity) \<and>
   (wf_store s \<longrightarrow>
      (\<forall>u \<in> set (users s). Some (u_username u) = username \<longrightarrow>
         login s username password =
           (if password = Some (u_password u) then LoggedIn (u_username u)
            else Failure InvalidCredential)))) \<and>
   (((\<forall>u \<in> set (users s). Some (u_username u) \<noteq> username) \<longrightarrow>
      login_part000 bcrypt_compare s username password = Failure UnknownIdentity) \<and>
   (wf_store s \<longrightarrow>
      (\<forall>u \<in> set (users s). Some (u_username u) = username \<longrightarrow>
         (\<forall>p. password = Some p \<longrightarrow>
            login_part000 bcrypt_compare s username password =
              (if bcrypt_compare p (u_password u) then LoggedIn (u_username u)
               else Failure InvalidCredential)))))"
  by (rule conjI[OF register_outcomes conjI[OF register_part000_outcomes[OF assms]
        conjI[OF login_outcomes login_part000_outcomes]]])

text \<open>At the example store: alice cannot register again, dave can; alice logs in with her
  password and not with another; zed is unknown.\<close>

theorem register_login_outcomes_witness:
  "(\<forall>p. CHR ''#'' # p \<noteq> []) \<and> wf_store example_store \<and>
   register example_store (Some ''alice'') (Some ''pw9'') None (Some ''10.0.0.9'') ''2024-01-02T03:04:05.000Z''
     = (Failure DuplicateIdentity, example_store) \<and>
   fst (register example_store (Some ''dave'') (Some ''pw4'') None (Some ''10.0.0.9'') ''2024-01-02T03:04:05.000Z'')
     = Success \<and>
   login example_store (Some ''alice'') (Some ''pw1'') = LoggedIn ''alice'' \<and>
   login example_store (Some ''alice'') (Some ''wrong'') = Failure InvalidCredential \<and>
   login example_store (Some ''zed'') (Some ''pw1'') = Failure UnknownIdentity"
proof -
  have h: "\<And>p. CHR ''#'' # p \<noteq> []" by simp
  let ?alice = "\<lparr>u_id = 0, u_username = ''alice'', u_password = ''pw1'', u_display_name = Some ''Alice'',
          u_bio = Some ''hello'', u_profile_img = None, u_created_at = ''2024-01-02 03:04:05'',
          u_ip_address = Some ''10.0.0.1''\<rparr>"
  have mem: "?alice \<in> set (users example_store)" by (simp add: example_store_def)
  have names: "map u_username (users example_store) = [''alice'', ''bob'']"
    by (simp add: example_store_def)
  have ex: "(\<exists>x \<in> set (users example_store). u_username x = n) \<longleftrightarrow> n \<in> set [''alice'', ''bob'']" for n
    unfolding names[symmetric] by auto
  note inst = register_login_outcomes[of "\<lambda>p. CHR ''#'' # p", OF h, where s=example_store]
  note r1 = inst[where username="Some ''alice''" and password="Some ''pw9''" and forwarded=None
      and remote="Some ''10.0.0.9''" and now="''2024-01-02T03:04:05.000Z''"]
  note r2 = inst[where username="Some ''dave''" and password="Some ''pw4''" and forwarded=None
      and remote="Some ''10.0.0.9''" and now="''2024-01-02T03:04:05.000Z''"]
  note l1 = inst[where username="Some ''alice''" and password="Some ''pw1''"]
  note l2 = inst[where username="Some ''alice''" and password="Some ''wrong''"]
  note l3 = inst[where username="Some ''zed''" and password="Some ''pw1''"]
  have a: "register example_store (Some ''alice'') (Some ''pw9'') None (Some ''10.0.0.9'') ''2024-01-02T03:04:05.000Z''
     = (Failure DuplicateIdentity, example_store)"
    using r1[THEN conjunct1, THEN conjunct1] r1[THEN conjunct1, THEN conjunct2, THEN conjunct1]
    by (simp add: ex truthy_def prod_eq_iff)
  have b: "fst (register example_store (Some ''dave'') (Some ''pw4'') None (Some ''10.0.0.9'') ''2024-01-02T03:04:05.000Z'')
     = Success"
    using r2[THEN conjunct1, THEN conjunct1] r2[THEN conjunct1, THEN conjunct2, THEN conjunct2]
    by (simp add: ex truthy_def)
  have c: "login example_store (Some ''alice'') (Some ''pw1'') = LoggedIn ''alice''"
    using l1[THEN conjunct2, THEN conjunct2, THEN conjunct1, THEN conjunct2,
        THEN mp, OF wf_example, THEN bspec, OF mem]
    by simp
  have d: "login example_store (Some ''alice'') (Some ''wrong'') = Failure InvalidCredential"
    using l2[THEN conjunct2, THEN conjunct2, THEN conjunct1, THEN conjunct2,
        THEN mp, OF wf_example, THEN bspec, OF mem]
    by simp
  have e: "login example_store (Some ''zed'') (Some ''pw1'') = Failure UnknownIdentity"
    using l3[THEN conjunct2, THEN conjunct2, THEN conjunct1, THEN conjunct1]
    by (simp add: example_store_def)
  from h wf_example a b c d e show ?thesis by simp
qed

subsection \<open>User detail\<close>

lemma map_of_json_object:
  "map_of (json_object kvs) k = (case map_of kvs k of None \<Rightarrow> None | Some v \<Rightarrow> v)" if "distinct (map fst kvs)"
  using that
proof (induction kvs)
  case Nil
  then show ?case by (simp add: json_object_def List.map_filter_simps)
next
  case (Cons kv kvs)
  obtain k' v' where kv: "kv = (k', v')" by (cases kv)
  have absent: "k' \<notin> fst ` set kvs" using Cons.prems kv by simp
  then have none: "map_of kvs k' = None" by (simp add: map_of_eq_None_iff)
  show ?case
  proof (cases v')
    case None
    with Cons kv none show ?thesis
      by (auto simp: json_object_def List.map_filter_simps)
  next
    case (Some x)
    with Cons kv show ?thesis
      by (auto simp: json_object_def List.map_filter_simps)
  qed
qed

text \<open>The handler of server.js answers every viewer alike, with the credential and the
  network address of the user.\<close>

lemma userDetail_ignores_viewer: "userDetail s username viewer = userDetail s username viewer'"
  by (simp add: userDetail_def)

lemma userDetail_full:
  assumes "find (\<lambda>u. u_username u = username) (users s) = Some u"
  shows "map_of (userDetail s username viewer) ''password'' = Some (JStr (u_password u))"
    and "map_of (userDetail s username viewer) ''ip_address'' = map_option JStr (u_ip_address u)"
    and "map_of (userDetail s username viewer) ''diary_count'' =
           Some (JNum (countDocuments (\<lambda>d. d_user d = u_username u) (diaries s)))"
    and "map_of (userDetail s username viewer) ''answer_count'' =
           Some (JNum (countDocuments (\<lambda>a. a_user a = u_username u) (answers s)))"
  using assms by (simp_all add: userDetail_def Let_def map_of_json_object split: option.split)

text \<open>The handler of part_000 keeps both from every viewer but \<open>'admin'\<close>, who gets the
  placeholder for the credential, the address and the two counts.\<close>

lemma userDetail_part000_redacted:
  assumes "find (\<lambda>u. u_username u = username) (users s) = Some u" and "viewer \<noteq> Some ''admin''"
  shows "map_of (userDetail_part000 s username viewer) ''password'' = None"
    and "map_of (userDetail_part000 s username viewer) ''ip_address'' = None"
    and "map fst (userDetail_part000 s username viewer) =
           (if u_display_name u = None then [] else [''display_name'']) @
           (if u_bio u = None then [] else [''bio'']) @ [''profile_img'']"
  using assms
  by (auto simp: userDetail_part000_def map_of_json_object json_object_def List.map_filter_simps
        split: option.split)

lemma userDetail_part000_admin:
  assumes "find (\<lambda>u. u_username u = username) (users s) = Some u"
  shows "map_of (userDetail_part000 s username (Some ''admin'')) ''password'' = Some (JStr ''Encrypted'')"
    and "map_of (userDetail_part000 s username (Some ''admin'')) ''ip_address'' =
           map_option JStr (u_ip_address u)"
    and "map_of (userDetail_part000 s username (Some ''admin'')) ''diary_count'' =
           Some (JNum (countDocuments (\<lambda>d. d_user d = u_username u) (diaries s)))"
    and "map_of (userDetail_part000 s username (Some ''admin'')) ''answer_count'' =
           Some (JNum (countDocuments (\<lambda>a. a_user a = u_username u) (answers s)))"
  using assms
  by (simp_all add: userDetail_part000_def Let_def update_conv' toObject_def map_of_json_object
        split: option.split)

text \<open>Claim C2, at the request \<open>GET /admin/user/alice?viewer=bob\<close> on the example store:
  server.js returns alice's credential and network address to bob, which the claim
  forbids for a viewer who is not the admin; part_000 returns neither.\<close>

theorem userDetail_leaks_credential:
  "map_of (userDetail example_store ''alice'' (Some ''bob'')) ''password'' = Some (JStr ''pw1'') \<and>
   map_of (userDetail example_store ''alice'' (Some ''bob'')) ''ip_address'' = Some (JStr ''10.0.0.1'') \<and>
   map_of (userDetail_part000 example_store ''alice'' (Some ''bob'')) ''password'' = None \<and>
   map_of (userDetail_part000 example_store ''alice'' (Some ''bob'')) ''ip_address'' = None"
  by (simp add: userDetail_def userDetail_part000_def Let_def map_of_json_object example_store_def)

subsection \<open>Reserving a question\<close>

lemma replace_dashes_append: "replace_dashes (a @ b) = replace_dashes a @ replace_dashes b"
  by (simp add: replace_dashes_def)

lemma replace_dashes_no_dash: "CHR ''-'' \<notin> set (replace_dashes d)"
  by (auto simp: replace_dashes_def)

text \<open>The handler of server.js answers a missing or empty text or date with the validation
  error and stores nothing; otherwise it stores one question with the given text and the
  date with every dash replaced by a dot and a space.\<close>

lemma reserveQuestion_validates:
  "(\<not> truthy text \<or> \<not> truthy date \<longrightarrow> reserveQuestion s text date = (Failure ValidationError, s)) \<and>
   (truthy text \<and> truthy date \<longrightarrow>
      (\<exists>d. date = Some d \<and>
         reserveQuestion s text date =
           (Success, s\<lparr>questions := questions s @
                           [\<lparr>q_id = next_id s, q_text = text, q_date = replace_dashes d\<rparr>],
                        next_id := Suc (next_id s)\<rparr>)))"
  by (cases date) (auto simp: reserveQuestion_def Question_create_def truthy_def)

text \<open>Claim C7, at the requests \<open>{text: "How are you?"}\<close> and \<open>{date: "2024-02-03"}\<close>
  on the example store: the handler of part_000 has no check, so the first request ends in
  an unhandled TypeError instead of the validation error, and the second stores a question
  without text. The claim says that both fail with the validation error.\<close>

theorem reserveQuestion_part000_unchecked:
  "reserveQuestion_part000 example_store (Some ''How are you?'') None =
     (Failure UnhandledRejection, example_store) \<and>
   fst (reserveQuestion_part000 example_store None (Some ''2024-02-03'')) = Success \<and>
   questions (snd (reserveQuestion_part000 example_store None (Some ''2024-02-03''))) =
     questions example_store @ [\<lparr>q_id = 13, q_text = None, q_date = ''2024. 02. 03''\<rparr>]"
  by (simp add: reserveQuestion_part000_def Question_create_def replace_dashes_def
        example_store_def)

text \<open>The same two requests on server.js.\<close>

lemma reserveQuestion_validates_example:
  "reserveQuestion example_store (Some ''How are you?'') None =
     (Failure ValidationError, example_store) \<and>
   reserveQuestion example_store None (Some ''2024-02-03'') =
     (Failure ValidationError, example_store) \<and>
   questions (snd (reserveQuestion example_store (Some ''How are you?'') (Some ''2024-02-03''))) =
     questions example_store @
       [\<lparr>q_id = 13, q_text = Some ''How are you?'', q_date = ''2024. 02. 03''\<rparr>]"
  by (simp add: reserveQuestion_def Question_create_def truthy_def replace_dashes_def
        example_store_def)

subsection \<open>The invariants are kept\<close>

text \<open>The empty store is well formed, and the handlers that write keep a store well formed
  (see also \<open>wf_toggleLike\<close>, \<open>wf_deleteDiary\<close>, \<open>wf_updateProfile\<close>).\<close>

lemma wf_empty: "wf_store empty_store \<and> one_answer_per_pair empty_store"
  by (simp add: wf_store_def one_answer_per_pair_def empty_store_def)

lemma wf_register: "wf_store s \<Longrightarrow> wf_store (snd (register s username password forwarded remote now))"
  by (cases username; cases password)
     (auto simp: register_cases wf_store_def truthy_def less_Suc_eq)

lemma wf_register_part000:
  "wf_store s \<Longrightarrow> wf_store (snd (register_part000 bcrypt_hash s username password forwarded remote now))"
  by (cases username; cases password)
     (auto simp: register_part000_def User_create_def wf_store_def less_Suc_eq find_exists
        simp del: not_None_eq)

lemma wf_Question_create: "wf_store s \<Longrightarrow> wf_store (Question_create s text date)"
  by (auto simp: Question_create_def wf_store_def less_Suc_eq)

lemma wf_reserveQuestion: "wf_store s \<Longrightarrow> wf_store (snd (reserveQuestion s text date))"
  by (cases date) (auto simp: reserveQuestion_def wf_Question_create)

lemma wf_reserveQuestion_part000: "wf_store s \<Longrightarrow> wf_store (snd (reserveQuestion_part000 s text date))"
  by (cases date) (auto simp: reserveQuestion_part000_def wf_Question_create)

lemma wf_submitAnswer:
  "wf_store s \<Longrightarrow> one_answer_per_pair s \<Longrightarrow>
   wf_store (snd (submitAnswer s q u c now)) \<and> one_answer_per_pair (snd (submitAnswer s q u c now))"
  using submit_step[of s q u c now] by blast

end
